theory Spec2Isabelle
  imports Complex_Main "HOL-Library.Multiset"
begin

section \<open>JavaScript numbers\<close>

text \<open>
  A JavaScript number is an IEEE-754 binary64 value. The finite ones are rationals, so a
  number is \<open>Fin q\<close>, one of the two infinities, or \<open>NaN\<close>. The two zeros are
  identified: they are \<open>===\<close> and compare alike, and they differ only as divisors, which
  no divisor of this program can be (the unit table holds no zero).
\<close>

datatype jsnum = NaN | NInf | Fin rat | PInf

text \<open>
  Rounding of an exact rational result to binary64, round-to-nearest, ties to even:
  53-bit significands, least exponent \<open>-1074\<close> (subnormals), overflow to an infinity
  from \<open>2^1024 - 2^970\<close> on. \<open>bitlen n\<close> is the number of binary digits of \<open>n\<close> and
  \<open>flog2 a\<close> the floor of the binary logarithm of a positive rational.
\<close>

function bitlen :: "int \<Rightarrow> int" where
  "bitlen n = (if n \<le> 0 then 0 else 1 + bitlen (n div 2))"
  by pat_completeness auto
termination
  by (relation "measure nat") auto

declare bitlen.simps [simp del]

definition pow2 :: "int \<Rightarrow> rat" where
  "pow2 k = (if 0 \<le> k then 2 ^ nat k else 1 / 2 ^ nat (- k))"

definition flog2 :: "rat \<Rightarrow> int" where
  "flog2 a = (if 1 \<le> a then bitlen \<lfloor>a\<rfloor> - 1
              else let l = bitlen \<lfloor>1 / a\<rfloor> - 1
                   in if a * 2 ^ nat l = 1 then - l else - l - 1)"

definition round_even :: "rat \<Rightarrow> int" where
  "round_even r =
     (let f = \<lfloor>r\<rfloor>; d = r - of_int f
      in if d < 1 / 2 then f else if 1 / 2 < d then f + 1
         else if even f then f else f + 1)"

definition rnd :: "rat \<Rightarrow> jsnum" where
  "rnd q =
     (if q = 0 then Fin 0
      else let a = \<bar>q\<bar>;
               e = max (- 1074) (flog2 a - 52);
               v = of_int (round_even (a / pow2 e)) * pow2 e
           in if pow2 1024 \<le> v then (if 0 < q then PInf else NInf)
              else Fin (if 0 < q then v else - v))"

text \<open>
  \<open>Fin q\<close> is a value a program can hold when \<open>q\<close> is representable, that is, when
  rounding leaves it alone.
\<close>

definition is_double :: "jsnum \<Rightarrow> bool" where
  "is_double x = (case x of Fin q \<Rightarrow> rnd q = Fin q | _ \<Rightarrow> True)"

text \<open>A decimal literal of the source denotes the double nearest to it.\<close>

definition literal :: "rat \<Rightarrow> jsnum" where
  "literal q = rnd q"

text \<open>The operators \<open>*\<close>, \<open>/\<close>, \<open><\<close> and \<open>==\<close> on numbers.\<close>

fun js_mul :: "jsnum \<Rightarrow> jsnum \<Rightarrow> jsnum" where
  "js_mul NaN y = NaN"
| "js_mul x NaN = NaN"
| "js_mul (Fin a) (Fin b) = rnd (a * b)"
| "js_mul (Fin a) PInf = (if a = 0 then NaN else if 0 < a then PInf else NInf)"
| "js_mul (Fin a) NInf = (if a = 0 then NaN else if 0 < a then NInf else PInf)"
| "js_mul PInf (Fin b) = (if b = 0 then NaN else if 0 < b then PInf else NInf)"
| "js_mul NInf (Fin b) = (if b = 0 then NaN else if 0 < b then NInf else PInf)"
| "js_mul PInf PInf = PInf"
| "js_mul PInf NInf = NInf"
| "js_mul NInf PInf = NInf"
| "js_mul NInf NInf = PInf"

fun js_div :: "jsnum \<Rightarrow> jsnum \<Rightarrow> jsnum" where
  "js_div NaN y = NaN"
| "js_div x NaN = NaN"
| "js_div (Fin a) (Fin b) =
     (if b = 0 then (if a = 0 then NaN else if 0 < a then PInf else NInf)
      else rnd (a / b))"
| "js_div (Fin a) PInf = Fin 0"
| "js_div (Fin a) NInf = Fin 0"
| "js_div PInf (Fin b) = (if 0 \<le> b then PInf else NInf)"
| "js_div NInf (Fin b) = (if 0 \<le> b then NInf else PInf)"
| "js_div PInf PInf = NaN"
| "js_div PInf NInf = NaN"
| "js_div NInf PInf = NaN"
| "js_div NInf NInf = NaN"

fun js_lt :: "jsnum \<Rightarrow> jsnum \<Rightarrow> bool" where
  "js_lt NaN y = False"
| "js_lt x NaN = False"
| "js_lt (Fin a) (Fin b) = (a < b)"
| "js_lt x PInf = (x \<noteq> PInf)"
| "js_lt NInf y = (y \<noteq> NInf)"
| "js_lt x y = False"

definition js_eq :: "jsnum \<Rightarrow> jsnum \<Rightarrow> bool" where
  "js_eq x y = (x \<noteq> NaN \<and> x = y)"

section \<open>Unit conversion\<close>

text \<open>
  \<open>EQUIVALENT_METERS\<close>, the table of metres per unit. Reading a key the table does not
  hold gives \<open>undefined\<close>, which arithmetic converts to \<open>NaN\<close>; \<open>lookup_number\<close> is
  that read followed by the conversion. (A key inherited from \<open>Object.prototype\<close> reads a
  function or an object, which converts to \<open>NaN\<close> as well.)
\<close>

definition EQUIVALENT_METERS :: "(string \<times> jsnum) list" where
  "EQUIVALENT_METERS =
     [(''ft'', literal (3048 / 10000)),
      (''yd'', literal (9144 / 10000)),
      (''mi'', literal (1609347 / 1000)),
      (''in'', literal (254 / 10000)),
      (''m'', literal 1),
      (''km'', literal 1000),
      (''ch'', literal (2011684 / 100000)),
      (''a'', literal (6363 / 100)),
      (''h'', literal 100)]"

definition lookup_number :: "(string \<times> jsnum) list \<Rightarrow> string \<Rightarrow> jsnum" where
  "lookup_number table key = (case map_of table key of None \<Rightarrow> NaN | Some c \<Rightarrow> c)"

definition convertLength :: "jsnum \<Rightarrow> string \<Rightarrow> string \<Rightarrow> jsnum" where
  "convertLength len srcUnits destUnits =
     js_div (js_mul len (lookup_number EQUIVALENT_METERS srcUnits))
            (lookup_number EQUIVALENT_METERS destUnits)"

text \<open>
  \<open>Math.pow(x, 2)\<close>: \<open>NaN\<close> for \<open>NaN\<close>, \<open>+Infinity\<close> for an infinity, and the rounded
  square of a finite \<open>x\<close>.
\<close>

definition Math_pow2 :: "jsnum \<Rightarrow> jsnum" where
  "Math_pow2 x = js_mul x x"

definition convertArea :: "jsnum \<Rightarrow> string \<Rightarrow> string \<Rightarrow> jsnum" where
  "convertArea area srcUnits destUnits =
     js_div (js_mul area (Math_pow2 (lookup_number EQUIVALENT_METERS srcUnits)))
            (Math_pow2 (lookup_number EQUIVALENT_METERS destUnits))"

text \<open>The nine unit symbols of the specification.\<close>

definition unit_symbols :: "string list" where
  "unit_symbols = [''ft'', ''yd'', ''mi'', ''in'', ''m'', ''km'', ''ch'', ''a'', ''h'']"

text \<open>
  \<open>unit_factor\<close>: a finite number between \<open>1/64\<close> and \<open>2048\<close>, as every entry of the
  table is.
\<close>

definition unit_factor :: "jsnum \<Rightarrow> bool" where
  "unit_factor x = (case x of Fin b \<Rightarrow> 1 / 64 \<le> b \<and> b \<le> 2048 | _ \<Rightarrow> False)"

section \<open>Objects, errors, features\<close>

text \<open>
  A \<open>TypeError\<close> is thrown by reading a property of \<open>undefined\<close> or \<open>null\<close>, and by
  \<open>for (... of x)\<close> when \<open>x\<close> is \<open>undefined\<close>.
\<close>

datatype type_error = PropertyOfUndefined | NotIterable

datatype js_error = TypeError type_error

text \<open>
  Reading \<open>obj[key]\<close> of a plain object finds the object's own property, or else the
  member of that name that every plain object inherits from \<open>Object.prototype\<close> (a
  function, or the prototype itself under \<open>__proto__\<close>), or else gives \<open>undefined\<close>. The
  inherited members are not enumerable: \<open>for ... in\<close> and \<open>Object.keys\<close> do not visit
  them.
\<close>

datatype 'a member = Own 'a | Inherited | Absent

definition object_prototype_names :: "string list" where
  "object_prototype_names =
     [''constructor'', ''__defineGetter__'', ''__defineSetter__'', ''hasOwnProperty'',
      ''__lookupGetter__'', ''__lookupSetter__'', ''isPrototypeOf'', ''propertyIsEnumerable'',
      ''toString'', ''valueOf'', ''__proto__'', ''toLocaleString'']"

definition js_read :: "(string \<Rightarrow> 'a option) \<Rightarrow> string \<Rightarrow> 'a member" where
  "js_read obj key =
     (case obj key of
        Some v \<Rightarrow> Own v
      | None \<Rightarrow> if key \<in> set object_prototype_names then Inherited else Absent)"

text \<open>
  The values a feature property or a filter operand holds: the primitives, and
  \<open>JInherited n\<close>, the member of \<open>Object.prototype\<close> named \<open>n\<close>, which is what reading
  \<open>properties[n]\<close> gives when the feature has no property \<open>n\<close> of its own.
\<close>

datatype scalar =
  JUndefined | JNull | JBool bool | JNum jsnum | JStr string | JInherited string

text \<open>The four geometry kinds the extent walks, and every other kind.\<close>

datatype geometry =
    Point "jsnum \<times> jsnum"
  | LineString "(jsnum \<times> jsnum) list"
  | Polygon "(jsnum \<times> jsnum) list list"
  | MultiLineString "(jsnum \<times> jsnum) list list"
  | OtherGeometry string

record feature =
  geometry :: geometry
  properties :: "(string \<times> scalar) list"

definition prop_get :: "(string \<times> scalar) list \<Rightarrow> string \<Rightarrow> scalar" where
  "prop_get props key =
     (case js_read (map_of props) key of
        Own v \<Rightarrow> v
      | Inherited \<Rightarrow> JInherited key
      | Absent \<Rightarrow> JUndefined)"

section \<open>Filter predicate evaluation\<close>

text \<open>
  Two functions of the runtime are parameters of the model: \<open>StringToNumber\<close>, the
  conversion of a string to a number, and \<open>MemberToString\<close>, the string that a member of
  \<open>Object.prototype\<close> converts to (the source text of a built-in function, which differs
  between engines).
\<close>

record runtime =
  StringToNumber :: "string \<Rightarrow> jsnum"
  MemberToString :: "string \<Rightarrow> string"

text \<open>
  The relational operator \<open>a < b\<close>: both operands are converted to primitives; two
  strings compare by code units (a \<open>char\<close> here, which is the same on ASCII), any other
  pair is converted to numbers.
\<close>

fun ToPrimitive :: "runtime \<Rightarrow> scalar \<Rightarrow> scalar" where
  "ToPrimitive rt (JInherited n) = JStr (MemberToString rt n)"
| "ToPrimitive rt v = v"

fun ToNumber :: "runtime \<Rightarrow> scalar \<Rightarrow> jsnum" where
  "ToNumber rt JUndefined = NaN"
| "ToNumber rt JNull = Fin 0"
| "ToNumber rt (JBool b) = Fin (if b then 1 else 0)"
| "ToNumber rt (JNum n) = n"
| "ToNumber rt (JStr s) = StringToNumber rt s"
| "ToNumber rt (JInherited n) = StringToNumber rt (MemberToString rt n)"

fun str_lt :: "string \<Rightarrow> string \<Rightarrow> bool" where
  "str_lt [] [] = False"
| "str_lt [] (y # ys) = True"
| "str_lt (x # xs) [] = False"
| "str_lt (x # xs) (y # ys) =
     (if x = y then str_lt xs ys else (of_char x :: nat) < of_char y)"

fun less_than_primitive :: "runtime \<Rightarrow> scalar \<Rightarrow> scalar \<Rightarrow> bool" where
  "less_than_primitive rt (JStr a) (JStr b) = str_lt a b"
| "less_than_primitive rt a b = js_lt (ToNumber rt a) (ToNumber rt b)"

definition less_than :: "runtime \<Rightarrow> scalar \<Rightarrow> scalar \<Rightarrow> bool" where
  "less_than rt a b = less_than_primitive rt (ToPrimitive rt a) (ToPrimitive rt b)"

text \<open>\<open>a === b\<close> on scalars: \<open>NaN\<close> equals nothing, itself included.\<close>

definition strict_equals :: "scalar \<Rightarrow> scalar \<Rightarrow> bool" where
  "strict_equals a b = (a = b \<and> a \<noteq> JNum NaN)"

text \<open>\<open>inList(value, list)\<close>: \<open>list.indexOf(value) >= 0\<close>, and \<open>indexOf\<close> compares with \<open>===\<close>.\<close>

definition inList :: "scalar \<Rightarrow> scalar list \<Rightarrow> bool" where
  "inList v list = list_ex (\<lambda>e. strict_equals e v) list"

text \<open>
  \<open>inRange(value, min = null, max = null)\<close>. A default parameter takes its default when
  the argument is \<open>undefined\<close>, which is what reading an absent \<open>min\<close> or \<open>max\<close> key of
  a clause gives. The branches are in the order of the source.
\<close>

definition default_null :: "scalar \<Rightarrow> scalar" where
  "default_null v = (if v = JUndefined then JNull else v)"

definition inRange :: "runtime \<Rightarrow> scalar \<Rightarrow> scalar \<Rightarrow> scalar \<Rightarrow> bool" where
  "inRange rt v min_arg max_arg =
     (let minv = default_null min_arg; maxv = default_null max_arg
      in if minv \<noteq> JNull \<and> maxv \<noteq> JNull
         then less_than rt minv v \<and> less_than rt v maxv
         else if minv = JNull then less_than rt v maxv
         else if maxv = JNull then less_than rt minv v
         else True)"

text \<open>
  The value stored under one key of a filter object: an object with a \<open>type\<close> of
  \<open>'range'\<close> (its \<open>min\<close> and \<open>max\<close>, \<open>JUndefined\<close> for an absent key), \<open>'list'\<close> or
  \<open>'equals'\<close>; an object with no such \<open>type\<close>; an array; or a primitive. The \<open>match\<close>
  key that selects the mode is one of the keys, holding the primitive \<open>'any'\<close> or
  \<open>'all'\<close>.
\<close>

datatype filter_def =
    Range scalar scalar
  | ListOf "scalar list"
  | Equals scalar
  | OtherObject
  | ShorthandList "scalar list"
  | Shorthand scalar

text \<open>
  The body of the \<open>switch\<close> for one key. Reading \<open>.type\<close> of \<open>null\<close> or \<open>undefined\<close>
  throws a \<open>TypeError\<close>; an object of unknown type is compared with \<open>===\<close> to the
  property value, which is false (a filter value that is itself a member of
  \<open>Object.prototype\<close> is a \<open>Shorthand\<close> of \<open>JInherited\<close>).
\<close>

fun clause_value :: "runtime \<Rightarrow> scalar \<Rightarrow> filter_def \<Rightarrow> js_error + bool" where
  "clause_value rt prop_val (Range mn mx) =
     Inr (inRange rt prop_val mn mx)"
| "clause_value rt prop_val (ListOf vs) = Inr (inList prop_val vs)"
| "clause_value rt prop_val (Equals v) = Inr (strict_equals v prop_val)"
| "clause_value rt prop_val OtherObject = Inr False"
| "clause_value rt prop_val (ShorthandList vs) = Inr (inList prop_val vs)"
| "clause_value rt prop_val (Shorthand JNull) = Inl (TypeError PropertyOfUndefined)"
| "clause_value rt prop_val (Shorthand JUndefined) = Inl (TypeError PropertyOfUndefined)"
| "clause_value rt prop_val (Shorthand v) = Inr (strict_equals v prop_val)"

text \<open>
  \<open>featureMatch(feature, filter)\<close>. The filter is the list of the object's enumerable
  keys with their values, in the order \<open>for (let filter_key in filter)\<close> visits them;
  the loop visits every key, \<open>match\<close> included.
\<close>

fun featureMatch_loop ::
  "runtime \<Rightarrow> feature \<Rightarrow> bool \<Rightarrow> (string \<times> filter_def) list \<Rightarrow> js_error + bool" where
  "featureMatch_loop rt feature match_all [] = Inr match_all"
| "featureMatch_loop rt feature match_all ((filter_key, filter_def) # rest) =
     (case clause_value rt (prop_get (properties feature) filter_key) filter_def of
        Inl e \<Rightarrow> Inl e
      | Inr v \<Rightarrow>
          if v \<and> \<not> match_all then Inr True
          else if \<not> v \<and> match_all then Inr False
          else featureMatch_loop rt feature match_all rest)"

definition featureMatch ::
  "runtime \<Rightarrow> feature \<Rightarrow> (string \<times> filter_def) list \<Rightarrow> js_error + bool" where
  "featureMatch rt feature flt =
     (let match_all = (if map_of flt ''match'' = Some (Shorthand (JStr ''any''))
                       then False else True)
      in featureMatch_loop rt feature match_all flt)"

text \<open>
  The clauses of a filter in the sense of the specification: its entries other than the
  mode selector \<open>match\<close>.
\<close>

definition clauses :: "(string \<times> filter_def) list \<Rightarrow> (string \<times> filter_def) list" where
  "clauses flt = filter (\<lambda>(k, d). k \<noteq> ''match'') flt"

section \<open>Feature set operations\<close>

text \<open>
  The argument of \<open>createFilter\<close> is a Mapbox GL style filter, a JSON array.
\<close>

datatype mbexpr = MNull | MBool bool | MNum jsnum | MStr string | MArr "mbexpr list"

text \<open>
  \<open>xs.concat(v)\<close>: an array argument is spread into the result, any other value is
  appended as one element.
\<close>

fun concat_js :: "mbexpr list \<Rightarrow> mbexpr \<Rightarrow> mbexpr list" where
  "concat_js xs (MArr ys) = xs @ ys"
| "concat_js xs v = xs @ [v]"

text \<open>
  \<open>filterFeatures(features, filter, inverse = true)\<close>. \<open>createFilter\<close> is imported from
  \<open>@mapbox/mapbox-gl-style-spec/feature_filter\<close> and is a parameter here: it compiles a
  filter into a boolean-valued function of a feature. The third argument is \<open>None\<close> when
  the caller omits it (or passes \<open>undefined\<close>), and the default \<open>true\<close> applies.
\<close>

definition filterFeatures ::
  "(mbexpr \<Rightarrow> feature \<Rightarrow> bool) \<Rightarrow> feature list \<Rightarrow> mbexpr \<Rightarrow> bool option \<Rightarrow> feature list" where
  "filterFeatures createFilter features flt inverse_arg =
     (let inverse = (case inverse_arg of None \<Rightarrow> True | Some b \<Rightarrow> b);
          filter_function = createFilter (MArr (concat_js [MStr ''all''] flt))
      in fold (\<lambda>feature new_features.
                 if inverse \<noteq> filter_function feature
                 then new_features @ [feature] else new_features)
              features [])"

section \<open>Geometry extent\<close>

text \<open>
  A map source of the state tree: its draw order and its layers. A layer of a vector
  source holds features; \<open>None\<close> is a layer without the \<open>features\<close> key.
\<close>

record sublayer =
  name :: string
  on :: bool
  features :: "feature list option"

record map_source =
  zIndex :: int
  layers :: "sublayer list"

text \<open>
  The bounds \<open>[minx, miny, maxx, maxy]\<close>, each \<open>null\<close> (\<open>None\<close>) until set. The local
  functions \<open>min\<close>, \<open>max\<close> and \<open>update_bounds\<close> of \<open>getFeaturesExtent\<close>; the first
  argument of \<open>min\<close> and \<open>max\<close> is the bound so far.
\<close>

type_synonym bounds = "jsnum option \<times> jsnum option \<times> jsnum option \<times> jsnum option"

fun min_js :: "jsnum option \<Rightarrow> jsnum \<Rightarrow> jsnum option" where
  "min_js None y = Some y"
| "min_js (Some x) y = (if js_lt y x then Some y else Some x)"

fun max_js :: "jsnum option \<Rightarrow> jsnum \<Rightarrow> jsnum option" where
  "max_js None y = Some y"
| "max_js (Some x) y = (if js_lt x y then Some y else Some x)"

fun update_bounds :: "jsnum \<times> jsnum \<Rightarrow> bounds \<Rightarrow> bounds" where
  "update_bounds (x, y) (b0, b1, b2, b3) = (min_js b0 x, min_js b1 y, max_js b2 x, max_js b3 y)"

fun extend_by_geometry :: "geometry \<Rightarrow> bounds \<Rightarrow> bounds" where
  "extend_by_geometry (Point p) b = update_bounds p b"
| "extend_by_geometry (LineString pts) b = fold update_bounds pts b"
| "extend_by_geometry (Polygon rings) b = fold (\<lambda>ring. fold update_bounds ring) rings b"
| "extend_by_geometry (MultiLineString rings) b = fold (\<lambda>ring. fold update_bounds ring) rings b"
| "extend_by_geometry (OtherGeometry t) b = b"

definition features_extent :: "feature list \<Rightarrow> bounds" where
  "features_extent fs =
     fold (\<lambda>feature. extend_by_geometry (geometry feature)) fs (None, None, None, None)"

text \<open>
  \<open>getFeaturesExtent(mapSource)\<close> reads the first layer; a map source with no layer
  throws on \<open>layer.features\<close>.
\<close>

definition getFeaturesExtent :: "map_source \<Rightarrow> js_error + bounds" where
  "getFeaturesExtent mapSource =
     (case layers mapSource of
        [] \<Rightarrow> Inl (TypeError PropertyOfUndefined)
      | layer # rest \<Rightarrow>
          (case features layer of
             None \<Rightarrow> Inr (None, None, None, None)
           | Some fs \<Rightarrow> Inr (features_extent fs)))"

text \<open>
  The coordinate pairs the extent visits, in visiting order, and the condition that none
  of them holds a \<open>NaN\<close>.
\<close>

fun coordinates :: "geometry \<Rightarrow> (jsnum \<times> jsnum) list" where
  "coordinates (Point p) = [p]"
| "coordinates (LineString pts) = pts"
| "coordinates (Polygon rings) = concat rings"
| "coordinates (MultiLineString rings) = concat rings"
| "coordinates (OtherGeometry t) = []"

definition visited :: "feature list \<Rightarrow> (jsnum \<times> jsnum) list" where
  "visited fs = concat (map (\<lambda>f. coordinates (geometry f)) fs)"

definition no_NaN :: "(jsnum \<times> jsnum) list \<Rightarrow> bool" where
  "no_NaN cs = list_all (\<lambda>(x, y). x \<noteq> NaN \<and> y \<noteq> NaN) cs"

text \<open>
  \<open>least r S\<close>: \<open>r\<close> is \<open>None\<close> for the empty set and otherwise an element of \<open>S\<close> that no
  element is below; \<open>greatest\<close> likewise.
\<close>

definition least :: "jsnum option \<Rightarrow> jsnum set \<Rightarrow> bool" where
  "least r S = (case r of None \<Rightarrow> S = {} | Some m \<Rightarrow> m \<in> S \<and> (\<forall>x\<in>S. \<not> js_lt x m))"

definition greatest :: "jsnum option \<Rightarrow> jsnum set \<Rightarrow> bool" where
  "greatest r S = (case r of None \<Rightarrow> S = {} | Some m \<Rightarrow> m \<in> S \<and> (\<forall>x\<in>S. \<not> js_lt m x))"

section \<open>Projection registry\<close>

text \<open>
  The decimal form of a non-negative integer, as string concatenation produces it.
\<close>

definition digit_char :: "nat \<Rightarrow> char" where
  "digit_char d = ''0123456789'' ! d"

function number_to_string :: "nat \<Rightarrow> string" where
  "number_to_string n =
     (if n < 10 then [digit_char n]
      else number_to_string (n div 10) @ [digit_char (n mod 10)])"
  by pat_completeness auto
termination
  by (relation "measure id") auto

declare number_to_string.simps [simp del]

text \<open>
  The Proj4 registry \<open>p4\<close>: the list of the calls \<open>p4.defs(name, def)\<close> made so far, the
  latest last. \<open>p4.defs(name)\<close> reads the latest definition of a name, \<open>undefined\<close>
  (\<open>None\<close>) when there is none. A definition is the projection string it was parsed from.
\<close>

type_synonym proj4 = "(string \<times> string option) list"

definition defs_set :: "proj4 \<Rightarrow> string \<Rightarrow> string option \<Rightarrow> proj4" where
  "defs_set p4 nm d = p4 @ [(nm, d)]"

definition defs_get :: "proj4 \<Rightarrow> string \<Rightarrow> string option" where
  "defs_get p4 nm = (case map_of (rev p4) nm of None \<Rightarrow> None | Some d \<Rightarrow> d)"

text \<open>The body of the inner loop of \<open>configureProjections\<close>, and the two loops.\<close>

definition configure_hemisphere :: "nat \<Rightarrow> string \<Rightarrow> proj4 \<Rightarrow> proj4" where
  "configure_hemisphere utm_zone north p4 =
     (let epsg_code = 32600 + utm_zone + (if north = ''north'' then 0 else 100);
          proj_id = ''EPSG:'' @ number_to_string epsg_code;
          proj_alias = ''UTM'' @ number_to_string utm_zone
                         @ (if north = ''north'' then ''N'' else ''S'');
          proj_string = ''+proj=utm +zone='' @ number_to_string utm_zone @ '' +'' @ north
                          @ ''+datum=WGS84 +units=m +no_defs'';
          p4' = defs_set p4 proj_id (Some proj_string)
      in defs_set p4' proj_alias (defs_get p4' proj_id))"

function configure_from :: "nat \<Rightarrow> proj4 \<Rightarrow> proj4" where
  "configure_from utm_zone p4 =
     (if utm_zone \<le> 60
      then configure_from (utm_zone + 1)
             (fold (configure_hemisphere utm_zone) [''north'', ''south''] p4)
      else p4)"
  by pat_completeness auto
termination
  by (relation "measure (\<lambda>(utm_zone, p4). 61 - utm_zone)") auto

declare configure_from.simps [simp del]

definition configureProjections :: "proj4 \<Rightarrow> proj4" where
  "configureProjections p4 = configure_from 1 p4"

text \<open>
  The registrations as the specification lists them: for each zone from 1 to 60, the id
  \<open>EPSG:<32600 + zone>\<close> and the alias \<open>UTM<zone>N\<close> of the northern definition, then the
  id \<open>EPSG:<32600 + zone + 100>\<close> and the alias \<open>UTM<zone>S\<close> of the southern one.
\<close>

definition epsg_id :: "nat \<Rightarrow> string" where
  "epsg_id code = ''EPSG:'' @ number_to_string code"

definition utm_alias :: "nat \<Rightarrow> string \<Rightarrow> string" where
  "utm_alias zone letter = ''UTM'' @ number_to_string zone @ letter"

definition utm_proj_string :: "nat \<Rightarrow> string \<Rightarrow> string" where
  "utm_proj_string zone hemisphere =
     ''+proj=utm +zone='' @ number_to_string zone @ '' +'' @ hemisphere
       @ ''+datum=WGS84 +units=m +no_defs''"

definition zone_registrations :: "nat \<Rightarrow> proj4" where
  "zone_registrations zone =
     [(epsg_id (32600 + zone), Some (utm_proj_string zone ''north'')),
      (utm_alias zone ''N'', Some (utm_proj_string zone ''north'')),
      (epsg_id (32600 + zone + 100), Some (utm_proj_string zone ''south'')),
      (utm_alias zone ''S'', Some (utm_proj_string zone ''south''))]"

definition utm_registrations :: proj4 where
  "utm_registrations = concat (map zone_registrations [1..<61])"

definition is_epsg_id :: "string \<Rightarrow> bool" where
  "is_epsg_id nm = (take 5 nm = ''EPSG:'')"

definition is_utm_alias :: "string \<Rightarrow> bool" where
  "is_utm_alias nm = (take 3 nm = ''UTM'')"

text \<open>Reading a decimal string back, the inverse of \<open>number_to_string\<close>.\<close>

definition digit_value :: "char \<Rightarrow> nat" where
  "digit_value c = of_char c - 48"

definition string_to_number :: "string \<Rightarrow> nat" where
  "string_to_number s = foldl (\<lambda>acc c. acc * 10 + digit_value c) 0 s"

section \<open>Catalog visibility and z-order\<close>

text \<open>
  A catalog node: a group has \<open>children\<close>, a layer has none (\<open>None\<close> is the missing
  key) and refers to map-source layers through \<open>src\<close>. The catalog is an object from ids
  to nodes, here the list of its keys in \<open>Object.keys\<close> order with their values, \<open>None\<close>
  for a falsy value. The map sources are an object from names to map sources, and the
  whole of it is \<open>None\<close> while the state is not loaded.
\<close>

record source_ref =
  mapSourceName :: string
  layerName :: string

record catalog_node =
  children :: "string list option"
  src :: "source_ref list"

type_synonym map_sources = "(string \<Rightarrow> map_source option) option"

text \<open>
  \<open>isLayerOn(mapSources, layer)\<close>: the loop over \<open>layer.src\<close> with its flag \<open>is_on\<close>,
  and inside it the loop over the layers of the map source. The test
  \<open>if(mapSources[src.mapSourceName])\<close> is one of truthiness: it passes for a map source
  and for a member inherited from \<open>Object.prototype\<close> as well, whose \<open>.layers\<close> is
  \<open>undefined\<close>, and \<open>for (... of undefined)\<close> throws.
\<close>

fun isLayerOn_loop ::
  "(string \<Rightarrow> map_source option) \<Rightarrow> bool \<Rightarrow> source_ref list \<Rightarrow> js_error + bool" where
  "isLayerOn_loop mapSources is_on [] = Inr is_on"
| "isLayerOn_loop mapSources is_on (s # rest) =
     (case js_read mapSources (mapSourceName s) of
        Own map_source \<Rightarrow>
          isLayerOn_loop mapSources
            (fold (\<lambda>layer is_on. if name layer = layerName s then (is_on \<and> on layer) else is_on)
                  (layers map_source) is_on)
            rest
      | Inherited \<Rightarrow> Inl (TypeError NotIterable)
      | Absent \<Rightarrow> Inr False)"

definition isLayerOn :: "map_sources \<Rightarrow> catalog_node \<Rightarrow> js_error + bool" where
  "isLayerOn mapSources layer =
     (case mapSources of
        None \<Rightarrow> Inr False
      | Some ms \<Rightarrow> isLayerOn_loop ms True (src layer))"

text \<open>
  \<open>getZValue(mapSources, layer)\<close> reads \<open>layer.src[0]\<close> and the map source it names;
  each read of a property of \<open>undefined\<close> throws. The \<open>zIndex\<close> of a member inherited
  from \<open>Object.prototype\<close> is \<open>undefined\<close> (\<open>None\<close>), read without error.
\<close>

definition getZValue :: "map_sources \<Rightarrow> catalog_node \<Rightarrow> js_error + int option" where
  "getZValue mapSources layer =
     (case src layer of
        [] \<Rightarrow> Inl (TypeError PropertyOfUndefined)
      | s # rest \<Rightarrow>
          (case mapSources of
             None \<Rightarrow> Inl (TypeError PropertyOfUndefined)
           | Some ms \<Rightarrow>
               (case js_read ms (mapSourceName s) of
                  Own map_source \<Rightarrow> Inr (Some (zIndex map_source))
                | Inherited \<Rightarrow> Inr None
                | Absent \<Rightarrow> Inl (TypeError PropertyOfUndefined))))"

text \<open>An entry \<open>{zIndex: ..., layer: ...}\<close> of the result.\<close>

record zorder_entry =
  entry_zIndex :: "int option"
  entry_layer :: catalog_node

text \<open>
  \<open>Array.prototype.sort\<close> with a comparison function. The algorithm is the engine's, and
  the order of the result is implementation-defined where the function is inconsistent,
  as the one of \<open>getLayersByZOrder\<close> is on ties (it answers 1 both ways). The model is
  an insertion sort: each element goes before the first element it compares below.
\<close>

fun insert_sorted :: "('a \<Rightarrow> 'a \<Rightarrow> int) \<Rightarrow> 'a \<Rightarrow> 'a list \<Rightarrow> 'a list" where
  "insert_sorted comparefn x [] = [x]"
| "insert_sorted comparefn x (y # ys) =
     (if comparefn x y < 0 then x # y # ys else y # insert_sorted comparefn x ys)"

definition array_sort :: "('a \<Rightarrow> 'a \<Rightarrow> int) \<Rightarrow> 'a list \<Rightarrow> 'a list" where
  "array_sort comparefn xs = fold (insert_sorted comparefn) xs []"

text \<open>
  \<open>a.zIndex > b.zIndex\<close>: a comparison with \<open>undefined\<close> is false.
\<close>

fun zIndex_greater :: "int option \<Rightarrow> int option \<Rightarrow> bool" where
  "zIndex_greater (Some x) (Some y) = (y < x)"
| "zIndex_greater x y = False"

definition compare_zIndex :: "zorder_entry \<Rightarrow> zorder_entry \<Rightarrow> int" where
  "compare_zIndex a b = (if zIndex_greater (entry_zIndex a) (entry_zIndex b) then - 1 else 1)"

text \<open>\<open>getLayersByZOrder(catalog, mapSources)\<close>: the loop that collects, then the sort.\<close>

fun collect_layers ::
  "map_sources \<Rightarrow> (string \<times> catalog_node option) list \<Rightarrow> zorder_entry list
     \<Rightarrow> js_error + zorder_entry list" where
  "collect_layers mapSources [] acc = Inr acc"
| "collect_layers mapSources ((key, None) # rest) acc = collect_layers mapSources rest acc"
| "collect_layers mapSources ((key, Some node) # rest) acc =
     (if children node = None then
        (case isLayerOn mapSources node of
           Inl e \<Rightarrow> Inl e
         | Inr is_on \<Rightarrow>
             if is_on then
               (case getZValue mapSources node of
                  Inl e \<Rightarrow> Inl e
                | Inr z \<Rightarrow>
                    collect_layers mapSources rest
                      (acc @ [\<lparr>entry_zIndex = z, entry_layer = node\<rparr>]))
             else collect_layers mapSources rest acc)
      else collect_layers mapSources rest acc)"

definition getLayersByZOrder ::
  "(string \<times> catalog_node option) list \<Rightarrow> map_sources \<Rightarrow> js_error + zorder_entry list" where
  "getLayersByZOrder catalog mapSources =
     (case collect_layers mapSources catalog [] of
        Inl e \<Rightarrow> Inl e
      | Inr acc \<Rightarrow> Inr (array_sort compare_zIndex acc))"

text \<open>
  What \<open>isLayerOn\<close> asks of one source reference: the map source exists and every one of
  its layers with the referenced name is on. And the reading under which the referenced
  layer must exist and be on.
\<close>

definition source_ref_on :: "(string \<Rightarrow> map_source option) \<Rightarrow> source_ref \<Rightarrow> bool" where
  "source_ref_on ms s =
     (case ms (mapSourceName s) of
        None \<Rightarrow> False
      | Some map_source \<Rightarrow> list_all (\<lambda>l. name l = layerName s \<longrightarrow> on l) (layers map_source))"

definition source_ref_exists_on :: "(string \<Rightarrow> map_source option) \<Rightarrow> source_ref \<Rightarrow> bool" where
  "source_ref_exists_on ms s =
     (case ms (mapSourceName s) of
        None \<Rightarrow> False
      | Some map_source \<Rightarrow> list_ex (\<lambda>l. name l = layerName s \<and> on l) (layers map_source))"

text \<open>
  A layer none of whose source references reads a member inherited from
  \<open>Object.prototype\<close>: each names a map source of the snapshot, or a name that no object
  inherits.
\<close>

definition no_inherited_source :: "map_sources \<Rightarrow> catalog_node \<Rightarrow> bool" where
  "no_inherited_source mapSources layer =
     (case mapSources of
        None \<Rightarrow> True
      | Some ms \<Rightarrow> list_all (\<lambda>s. js_read ms (mapSourceName s) \<noteq> Inherited) (src layer))"

text \<open>
  The layers of a catalog (its nodes without children), in catalog order; those that are
  on; the catalogs all of whose layers name at least one source; those none of whose
  layers reads an inherited member; and the order of the result, never ascending.
\<close>

definition layer_nodes :: "(string \<times> catalog_node option) list \<Rightarrow> catalog_node list" where
  "layer_nodes catalog =
     concat (map (\<lambda>(key, n). case n of None \<Rightarrow> []
                    | Some node \<Rightarrow> if children node = None then [node] else [])
                 catalog)"

definition on_layers :: "(string \<times> catalog_node option) list \<Rightarrow> map_sources \<Rightarrow> catalog_node list" where
  "on_layers catalog mapSources =
     filter (\<lambda>node. isLayerOn mapSources node = Inr True) (layer_nodes catalog)"

definition layers_have_src :: "(string \<times> catalog_node option) list \<Rightarrow> bool" where
  "layers_have_src catalog = list_all (\<lambda>node. src node \<noteq> []) (layer_nodes catalog)"

definition no_inherited_sources ::
  "(string \<times> catalog_node option) list \<Rightarrow> map_sources \<Rightarrow> bool" where
  "no_inherited_sources catalog mapSources =
     list_all (no_inherited_source mapSources) (layer_nodes catalog)"

fun zIndex_at_least :: "int option \<Rightarrow> int option \<Rightarrow> bool" where
  "zIndex_at_least (Some x) (Some y) = (y \<le> x)"
| "zIndex_at_least x y = False"

definition descending :: "zorder_entry list \<Rightarrow> bool" where
  "descending es = sorted_wrt (\<lambda>a b. zIndex_at_least (entry_zIndex a) (entry_zIndex b)) es"

section \<open>Properties of the feature set operations\<close>

lemma filterFeatures_fold_filter:
  "fold (\<lambda>x acc. if P x then acc @ [x] else acc) xs acc0 = acc0 @ filter P xs"
  by (induction xs arbitrary: acc0) simp_all

text \<open>
  C9. When the \<open>inverse\<close> argument of \<open>filterFeatures\<close> is omitted it defaults to true:
  the result is exactly the features, in their order, that do not satisfy the compiled
  filter predicate.
\<close>

theorem filterFeatures_default_excludes_matching:
  "filterFeatures createFilter fs flt None =
     filter (\<lambda>f. \<not> createFilter (MArr (concat_js [MStr ''all''] flt)) f) fs"
  by (simp add: filterFeatures_def filterFeatures_fold_filter)

theorem filterFeatures_default_excludes_matching_witness:
  "filterFeatures (\<lambda>e f. properties f = [(''PIN'', JStr ''1'')])
      [\<lparr>geometry = OtherGeometry ''x'', properties = [(''PIN'', JStr ''1'')]\<rparr>,
       \<lparr>geometry = OtherGeometry ''x'', properties = [(''PIN'', JStr ''2'')]\<rparr>]
      (MArr [MArr [MStr ''=='', MStr ''PIN'', MStr ''1'']]) None
   = [\<lparr>geometry = OtherGeometry ''x'', properties = [(''PIN'', JStr ''2'')]\<rparr>]"
  using filterFeatures_default_excludes_matching
    [of "\<lambda>e f. properties f = [(''PIN'', JStr ''1'')]"
        "[\<lparr>geometry = OtherGeometry ''x'', properties = [(''PIN'', JStr ''1'')]\<rparr>,
          \<lparr>geometry = OtherGeometry ''x'', properties = [(''PIN'', JStr ''2'')]\<rparr>]"
        "MArr [MArr [MStr ''=='', MStr ''PIN'', MStr ''1'']]"]
  by simp

section \<open>Properties of the unit conversion\<close>

lemma floor_rat_numeral_divide:
  "\<lfloor>numeral a / numeral b :: rat\<rfloor> = numeral a div numeral b"
  by (metis floor_divide_of_int_eq of_int_numeral)

lemmas rnd_eval1 = flog2_def bitlen.simps floor_rat_numeral_divide
lemmas rnd_eval2 = pow2_def round_even_def floor_rat_numeral_divide

lemma literal_ft: "literal (3048 / 10000) = Fin (5490788665690109 / 18014398509481984)"
  unfolding literal_def rnd_def Let_def
  apply (simp add: rnd_eval1)
  apply (simp add: rnd_eval2)
  done

lemma literal_yd: "literal (9144 / 10000) = Fin (8236182998535163 / 9007199254740992)"
  unfolding literal_def rnd_def Let_def
  apply (simp add: rnd_eval1)
  apply (simp add: rnd_eval2)
  done

lemma literal_mi: "literal (1609347 / 1000) = Fin (7077982958505689 / 4398046511104)"
  unfolding literal_def rnd_def Let_def
  apply (simp add: rnd_eval1)
  apply (simp add: rnd_eval2)
  done

lemma literal_in: "literal (254 / 10000) = Fin (3660525777126739 / 144115188075855872)"
  unfolding literal_def rnd_def Let_def
  apply (simp add: rnd_eval1)
  apply (simp add: rnd_eval2)
  done

lemma literal_m: "literal 1 = Fin 1"
  unfolding literal_def rnd_def Let_def
  apply (simp add: rnd_eval1)
  apply (simp add: rnd_eval2)
  done

lemma literal_km: "literal 1000 = Fin 1000"
  unfolding literal_def rnd_def Let_def
  apply (simp add: rnd_eval1)
  apply (simp add: rnd_eval2)
  done

lemma literal_ch: "literal (2011684 / 100000) = Fin (5662387070491993 / 281474976710656)"
  unfolding literal_def rnd_def Let_def
  apply (simp add: rnd_eval1)
  apply (simp add: rnd_eval2)
  done

lemma literal_a: "literal (6363 / 100) = Fin (8955126384049521 / 140737488355328)"
  unfolding literal_def rnd_def Let_def
  apply (simp add: rnd_eval1)
  apply (simp add: rnd_eval2)
  done

lemma literal_h: "literal 100 = Fin 100"
  unfolding literal_def rnd_def Let_def
  apply (simp add: rnd_eval1)
  apply (simp add: rnd_eval2)
  done

lemma EQUIVALENT_METERS_values:
  "EQUIVALENT_METERS =
     [(''ft'', Fin (5490788665690109 / 18014398509481984)),
      (''yd'', Fin (8236182998535163 / 9007199254740992)),
      (''mi'', Fin (7077982958505689 / 4398046511104)),
      (''in'', Fin (3660525777126739 / 144115188075855872)),
      (''m'', Fin 1),
      (''km'', Fin 1000),
      (''ch'', Fin (5662387070491993 / 281474976710656)),
      (''a'', Fin (8955126384049521 / 140737488355328)),
      (''h'', Fin 100)]"
  unfolding EQUIVALENT_METERS_def
  by (simp only: literal_ft literal_yd literal_mi literal_in literal_m literal_km
        literal_ch literal_a literal_h)

lemma EQUIVALENT_METERS_keys: "map fst EQUIVALENT_METERS = unit_symbols"
  by (simp add: EQUIVALENT_METERS_def unit_symbols_def)

lemma lookup_number_unknown:
  "u \<notin> set unit_symbols \<Longrightarrow> lookup_number EQUIVALENT_METERS u = NaN"
proof -
  assume "u \<notin> set unit_symbols"
  then have "u \<notin> fst ` set EQUIVALENT_METERS"
    using EQUIVALENT_METERS_keys by (metis set_map)
  then have "map_of EQUIVALENT_METERS u = None"
    by (simp add: map_of_eq_None_iff)
  then show ?thesis by (simp add: lookup_number_def)
qed

lemma lookup_number_values:
  "lookup_number EQUIVALENT_METERS ''ft'' = Fin (5490788665690109 / 18014398509481984)"
  "lookup_number EQUIVALENT_METERS ''yd'' = Fin (8236182998535163 / 9007199254740992)"
  "lookup_number EQUIVALENT_METERS ''mi'' = Fin (7077982958505689 / 4398046511104)"
  "lookup_number EQUIVALENT_METERS ''in'' = Fin (3660525777126739 / 144115188075855872)"
  "lookup_number EQUIVALENT_METERS ''m'' = Fin 1"
  "lookup_number EQUIVALENT_METERS ''km'' = Fin 1000"
  "lookup_number EQUIVALENT_METERS ''ch'' = Fin (5662387070491993 / 281474976710656)"
  "lookup_number EQUIVALENT_METERS ''a'' = Fin (8955126384049521 / 140737488355328)"
  "lookup_number EQUIVALENT_METERS ''h'' = Fin 100"
  by (simp_all add: lookup_number_def EQUIVALENT_METERS_values)

lemma js_mul_NaN_right: "js_mul x NaN = NaN"
  by (cases x) simp_all

lemma js_div_NaN_right: "js_div x NaN = NaN"
  by (cases x) simp_all

text \<open>
  C3 (as the code has it). \<open>convertLength\<close> and \<open>convertArea\<close> raise no error: when
  the source or the destination unit is outside the nine symbols, both return \<open>NaN\<close>,
  for every number.
\<close>

theorem convert_unknown_unit_is_NaN:
  assumes "srcUnits \<notin> set unit_symbols \<or> destUnits \<notin> set unit_symbols"
  shows "convertLength x srcUnits destUnits = NaN \<and> convertArea x srcUnits destUnits = NaN"
  using assms
  by (auto simp: convertLength_def convertArea_def Math_pow2_def lookup_number_unknown
        js_mul_NaN_right js_div_NaN_right)

theorem convert_unknown_unit_is_NaN_witness:
  "''furlong'' \<notin> set unit_symbols \<and> convertLength (Fin 1) ''furlong'' ''m'' = NaN
     \<and> convertArea (Fin 1) ''furlong'' ''m'' = NaN"
  using convert_unknown_unit_is_NaN [of "''furlong''" "''m''" "Fin 1"]
  by (simp add: unit_symbols_def)

text \<open>
  The claim that such a call never returns \<open>NaN\<close> fails at the unit \<open>furlong\<close>.
\<close>

theorem convert_unknown_unit_counterexample:
  "''furlong'' \<notin> set unit_symbols \<and> convertLength (Fin 1) ''m'' ''furlong'' = NaN
     \<and> convertArea (Fin 1) ''m'' ''furlong'' = NaN"
  by (simp add: unit_symbols_def convertLength_def convertArea_def Math_pow2_def
        lookup_number_def EQUIVALENT_METERS_def js_div_NaN_right)

lemma seven_feet_product:
  "js_mul (Fin 7) (Fin (5490788665690109 / 18014398509481984))
     = Fin (4804440082478845 / 2251799813685248)"
  unfolding js_mul.simps rnd_def Let_def
  apply (simp add: rnd_eval1)
  apply (simp add: rnd_eval2)
  done

lemma seven_feet_quotient:
  "js_div (Fin (4804440082478845 / 2251799813685248))
          (Fin (5490788665690109 / 18014398509481984))
     = Fin (7881299347898367 / 1125899906842624)"
  unfolding js_div.simps rnd_def Let_def
  apply (simp add: rnd_eval1)
  apply (simp add: rnd_eval2)
  done

lemma rnd_seven: "rnd 7 = Fin 7"
  unfolding rnd_def Let_def
  apply (simp add: rnd_eval1)
  apply (simp add: rnd_eval2)
  done

lemma convertLength_seven_feet:
  "convertLength (Fin 7) ''ft'' ''ft'' = Fin (7881299347898367 / 1125899906842624)"
proof -
  have l: "lookup_number EQUIVALENT_METERS ''ft'' = Fin (5490788665690109 / 18014398509481984)"
    by (rule lookup_number_values)
  show ?thesis
    unfolding convertLength_def l
    by (simp only: seven_feet_product seven_feet_quotient)
qed

text \<open>
  \<open>convertLength(7, 'ft', 'ft')\<close> is \<open>6.999999999999999\<close> (\<open>7 - 2^-50\<close>): the product
  \<open>7 * 0.3048\<close> is rounded, and the quotient does not come back to 7. And
  \<open>convertLength(NaN, 'm', 'm')\<close> is \<open>NaN\<close>, which is equal to nothing.
\<close>

theorem convertLength_identity_counterexample:
  "''ft'' \<in> set unit_symbols \<and> is_double (Fin 7)
     \<and> \<not> js_eq (convertLength (Fin 7) ''ft'' ''ft'') (Fin 7)
     \<and> \<not> js_eq (convertLength NaN ''m'' ''m'') NaN"
  by (simp add: convertLength_seven_feet unit_symbols_def is_double_def rnd_seven js_eq_def)

text \<open>
  The error of one rounding. \<open>bitlen\<close> and \<open>flog2\<close> find the binary exponent, so a
  number between \<open>2^-1022\<close> and \<open>2^1023\<close> is rounded to a finite number within the
  relative error \<open>2^-53\<close>.
\<close>

lemma bitlen_bounds:
  "0 < n \<Longrightarrow> 1 \<le> bitlen n \<and> 2 ^ nat (bitlen n - 1) \<le> n \<and> n < 2 ^ nat (bitlen n)"
proof (induction n rule: bitlen.induct)
  case (1 n)
  show ?case
  proof (cases "n = 1")
    case True
    have "bitlen 1 = 1" by (simp add: bitlen.simps)
    with True show ?thesis by simp
  next
    case False
    with "1.prems" have h: "0 < n div 2" by simp
    from "1.prems" have "\<not> n \<le> 0" by simp
    from "1.IH" [OF this h] have ih: "1 \<le> bitlen (n div 2)"
      "2 ^ nat (bitlen (n div 2) - 1) \<le> n div 2" "n div 2 < 2 ^ nat (bitlen (n div 2))"
      by simp_all
    have b: "bitlen n = 1 + bitlen (n div 2)"
      using "1.prems" by (subst bitlen.simps) simp
    define k where "k = nat (bitlen (n div 2) - 1)"
    have k: "nat (bitlen (n div 2)) = Suc k" "nat (bitlen n - 1) = Suc k" "nat (bitlen n) = Suc (Suc k)"
      using ih(1) b by (simp_all add: k_def)
    have "2 * (n div 2) \<le> n" by simp
    moreover have "n < 2 * (n div 2 + 1)" by simp
    ultimately show ?thesis
      using ih b unfolding k k_def[symmetric] by auto
  qed
qed

lemma pow2_powi: "pow2 k = 2 powi k"
  by (simp add: pow2_def power_int_def divide_simps)

lemma pow2_pos: "0 < pow2 k"
  by (simp add: pow2_powi)

lemma pow2_add: "pow2 (i + j) = pow2 i * pow2 j"
  by (simp add: pow2_powi power_int_add)

lemma pow2_mono: "i \<le> j \<Longrightarrow> pow2 i \<le> pow2 j"
  by (simp add: pow2_powi power_int_increasing)

lemma pow2_less_cancel: "pow2 i < pow2 j \<Longrightarrow> i < j"
  by (metis pow2_mono not_le)

lemma pow2_nat: "pow2 (int k) = 2 ^ k"
  by (simp add: pow2_def)

lemma flog2_bounds:
  assumes "0 < a"
  shows "pow2 (flog2 a) \<le> a \<and> a < pow2 (flog2 a + 1)"
proof (cases "1 \<le> a")
  case True
  define n where "n = \<lfloor>a\<rfloor>"
  have n: "0 < n" "of_int n \<le> a" "a < of_int n + 1"
    using True by (simp_all add: n_def) linarith+
  from bitlen_bounds [OF n(1)] have b: "1 \<le> bitlen n" "2 ^ nat (bitlen n - 1) \<le> n"
    "n < 2 ^ nat (bitlen n)" by simp_all
  have f: "flog2 a = bitlen n - 1" using True by (simp add: flog2_def n_def)
  have p1: "pow2 (bitlen n - 1) = 2 ^ nat (bitlen n - 1)"
    using b(1) by (simp add: pow2_def)
  have p2: "pow2 (bitlen n - 1 + 1) = 2 ^ nat (bitlen n)"
    using b(1) by (simp add: pow2_def)
  have "(2::rat) ^ nat (bitlen n - 1) \<le> of_int n"
    using b(2) by (metis of_int_le_iff of_int_numeral of_int_power)
  moreover have "of_int n + 1 \<le> (2::rat) ^ nat (bitlen n)"
  proof -
    from b(3) have "n + 1 \<le> 2 ^ nat (bitlen n)" by simp
    then have "of_int (n + 1) \<le> (of_int (2 ^ nat (bitlen n)) :: rat)"
      by (simp only: of_int_le_iff)
    then show ?thesis by simp
  qed
  ultimately show ?thesis
    unfolding f p1 p2 using n by linarith
next
  case False
  define n where "n = \<lfloor>1 / a\<rfloor>"
  define l where "l = bitlen n - 1"
  from False assms have "1 < 1 / a" by (simp add: field_simps)
  then have n: "0 < n" "of_int n \<le> 1 / a" "1 / a < of_int n + 1"
    by (simp_all add: n_def) linarith+
  from bitlen_bounds [OF n(1)] have b: "0 \<le> l" "2 ^ nat l \<le> n" "n < 2 ^ nat (l + 1)"
    by (simp_all add: l_def)
  have lo: "(2::rat) ^ nat l \<le> 1 / a"
  proof -
    have "(2::rat) ^ nat l \<le> of_int n"
      using b(2) by (metis of_int_le_iff of_int_numeral of_int_power)
    then show ?thesis using n(2) by (rule order_trans)
  qed
  have hi: "1 / a < (2::rat) ^ nat (l + 1)"
  proof -
    from b(3) have "n + 1 \<le> 2 ^ nat (l + 1)" by simp
    then have "of_int (n + 1) \<le> (of_int (2 ^ nat (l + 1)) :: rat)"
      by (simp only: of_int_le_iff)
    with n(3) show ?thesis by simp
  qed
  from lo assms have lo': "a * 2 ^ nat l \<le> 1"
    by (simp add: field_simps)
  from hi assms have hi': "1 < a * 2 ^ nat (l + 1)"
    by (simp add: field_simps)
  have pl: "pow2 (- l) = 1 / 2 ^ nat l"
    using b(1) by (cases "l = 0") (simp_all add: pow2_def)
  have pl1: "pow2 (- l - 1) = 1 / 2 ^ nat (l + 1)"
    using b(1) by (simp add: pow2_def)
  have pl2: "pow2 (- l + 1) = 2 / 2 ^ nat l"
  proof -
    have one: "pow2 1 = 2" by (simp add: pow2_def)
    have "pow2 (- l + 1) = pow2 (- l) * pow2 1" by (rule pow2_add)
    also have "\<dots> = 1 / 2 ^ nat l * 2" by (simp only: pl one)
    finally show ?thesis by simp
  qed
  have two: "(2::rat) ^ nat (l + 1) = 2 * 2 ^ nat l"
    using b(1) by (simp add: nat_add_distrib)
  show ?thesis
  proof (cases "a * 2 ^ nat l = 1")
    case True
    then have f: "flog2 a = - l"
      using False by (simp add: flog2_def Let_def n_def l_def)
    from True have "a = 1 / 2 ^ nat l" by (simp add: field_simps)
    then show ?thesis unfolding f pl pl2 by (simp add: divide_strict_right_mono)
  next
    case ne: False
    then have f: "flog2 a = - l - 1"
      using False by (simp add: flog2_def Let_def n_def l_def)
    have "- l - 1 + 1 = - l" by simp
    then have e: "pow2 (flog2 a + 1) = 1 / 2 ^ nat l" unfolding f by (simp add: pl)
    from ne lo' have "a * 2 ^ nat l < 1" by simp
    then have "a < 1 / 2 ^ nat l" by (simp add: field_simps)
    moreover from hi' have "1 / 2 ^ nat (l + 1) < a" by (simp add: field_simps)
    ultimately show ?thesis unfolding e unfolding f pl1 by simp
  qed
qed

lemma round_even_error: "\<bar>of_int (round_even r) - r\<bar> \<le> 1 / 2"
proof -
  have "of_int \<lfloor>r\<rfloor> \<le> r" "r < of_int \<lfloor>r\<rfloor> + 1" by linarith+
  then show ?thesis
    by (auto simp: round_even_def Let_def)
qed


lemma pow2_strict_mono: "i < j \<Longrightarrow> pow2 i < pow2 j"
  by (simp add: pow2_powi power_int_strict_increasing)

lemma rnd_error:
  assumes lo: "pow2 (- 1022) \<le> \<bar>q\<bar>" and hi: "\<bar>q\<bar> \<le> pow2 1023"
  shows "\<exists>r. rnd q = Fin r \<and> \<bar>r - q\<bar> \<le> \<bar>q\<bar> / 2 ^ 53"
proof -
  define a where "a = \<bar>q\<bar>"
  define f where "f = flog2 a"
  define e where "e = f - 52"
  define v where "v = of_int (round_even (a / pow2 e)) * pow2 e"
  have a: "0 < a" using lo pow2_pos [of "- 1022"] by (simp add: a_def)
  then have q: "q \<noteq> 0" by (auto simp: a_def)
  from flog2_bounds [OF a] have fb: "pow2 f \<le> a" "a < pow2 (f + 1)"
    by (simp_all add: f_def)
  have f_lo: "- 1022 \<le> f"
  proof (rule ccontr)
    assume "\<not> - 1022 \<le> f"
    then have "f + 1 \<le> - 1022" by simp
    then have "pow2 (f + 1) \<le> pow2 (- 1022)" by (rule pow2_mono)
    with fb(2) lo show False by (simp add: a_def)
  qed
  have f_hi: "f \<le> 1023"
  proof (rule ccontr)
    assume "\<not> f \<le> 1023"
    then have "1023 < f" by simp
    then have "pow2 1023 < pow2 f" by (rule pow2_strict_mono)
    with fb(1) hi show False by (simp add: a_def)
  qed
  have e: "max (- 1074) (flog2 a - 52) = e"
    using f_lo by (simp add: e_def f_def)
  have pe: "0 < pow2 e" by (rule pow2_pos)
  have "\<bar>of_int (round_even (a / pow2 e)) - a / pow2 e\<bar> \<le> 1 / 2"
    by (rule round_even_error)
  then have "\<bar>of_int (round_even (a / pow2 e)) - a / pow2 e\<bar> * pow2 e \<le> 1 / 2 * pow2 e"
    using pe by (simp only: mult_le_cancel_right_pos)
  moreover have "\<bar>of_int (round_even (a / pow2 e)) - a / pow2 e\<bar> * pow2 e = \<bar>v - a\<bar>"
  proof -
    have "\<bar>of_int (round_even (a / pow2 e)) - a / pow2 e\<bar> * pow2 e
        = \<bar>(of_int (round_even (a / pow2 e)) - a / pow2 e) * pow2 e\<bar>"
      using pe by (simp add: abs_mult)
    also have "(of_int (round_even (a / pow2 e)) - a / pow2 e) * pow2 e = v - a"
      using pe by (simp add: v_def field_simps)
    finally show ?thesis .
  qed
  ultimately have va: "\<bar>v - a\<bar> \<le> pow2 e / 2" by simp
  have "pow2 f = pow2 (e + 52)" by (simp add: e_def)
  also have "\<dots> = pow2 e * pow2 52" by (rule pow2_add)
  also have "pow2 52 = 2 ^ 52" by (simp add: pow2_def)
  finally have pf: "pow2 f = pow2 e * 2 ^ 52" .
  have "pow2 e / 2 = pow2 f / 2 ^ 53" by (simp add: pf)
  also have "\<dots> \<le> a / 2 ^ 53" using fb(1) by (simp add: divide_right_mono)
  finally have half: "pow2 e / 2 \<le> a / 2 ^ 53" .
  with va have err: "\<bar>v - a\<bar> \<le> a / 2 ^ 53" by simp
  have "v \<le> a + a / 2 ^ 53" using err by linarith
  also have "\<dots> < 2 * a" using a by simp
  also have "\<dots> \<le> 2 * pow2 1023" using hi by (simp add: a_def)
  also have "\<dots> = pow2 1024"
  proof -
    have "pow2 1024 = pow2 (1 + 1023)" by simp
    also have "\<dots> = pow2 1 * pow2 1023" by (rule pow2_add)
    finally show ?thesis by (simp add: pow2_def)
  qed
  finally have fin: "\<not> pow2 1024 \<le> v" by simp
  have r: "rnd q = Fin (if 0 < q then v else - v)"
    using q fin unfolding rnd_def Let_def a_def [symmetric] e v_def [symmetric]
    by simp
  have "\<bar>(if 0 < q then v else - v) - q\<bar> = \<bar>v - a\<bar>"
    using q by (auto simp: a_def)
  with err r show ?thesis by (simp add: a_def)
qed


text \<open>
  Product and quotient in \<open>convertLength(x, u, u)\<close> are each rounded once: the result is
  within \<open>2^-52 + 2^-106\<close> of \<open>x\<close>, relatively.
\<close>

lemma lookup_number_factor:
  assumes "u \<in> set unit_symbols"
  shows "\<exists>b. 1 / 64 \<le> b \<and> b \<le> 2048 \<and> lookup_number EQUIVALENT_METERS u = Fin b"
proof -
  from assms consider "u = ''ft''" | "u = ''yd''" | "u = ''mi''" | "u = ''in''" | "u = ''m''"
    | "u = ''km''" | "u = ''ch''" | "u = ''a''" | "u = ''h''"
    unfolding unit_symbols_def by force
  then have "unit_factor (lookup_number EQUIVALENT_METERS u)"
    by cases (simp_all add: lookup_number_values unit_factor_def)
  then show ?thesis
    by (cases "lookup_number EQUIVALENT_METERS u") (simp_all add: unit_factor_def)
qed

lemma range_low: "pow2 (- 1022) \<le> 1 / (128 * 10 ^ 300)"
proof -
  have "(128::rat) * 10 ^ 300 \<le> 2 ^ 1022" by simp
  then have "1 / (2::rat) ^ 1022 \<le> 1 / (128 * 10 ^ 300)"
    by (intro divide_left_mono) simp_all
  then show ?thesis by (simp add: pow2_def)
qed

lemma range_high: "4096 * 10 ^ 300 \<le> pow2 1023"
  by (simp add: pow2_def)

lemma convertLength_rounded:
  assumes b: "1 / 64 \<le> b" "b \<le> 2048"
    and a: "1 / 10 ^ 300 \<le> \<bar>a\<bar>" "\<bar>a\<bar> \<le> 10 ^ 300"
  shows "\<exists>r. js_div (js_mul (Fin a) (Fin b)) (Fin b) = Fin r
           \<and> \<bar>r - a\<bar> \<le> (2 / 2 ^ 53 + 1 / 2 ^ 106) * \<bar>a\<bar>"
proof -
  define big :: rat where "big = 10 ^ 300"
  define eps :: rat where "eps = 1 / 2 ^ 53"
  have big: "0 < big" by (simp add: big_def)
  have eps: "0 < eps" "eps < 1" by (simp_all add: eps_def)
  have low: "pow2 (- 1022) \<le> 1 / (128 * big)"
    unfolding big_def by (rule range_low)
  have high: "4096 * big \<le> pow2 1023"
    unfolding big_def by (rule range_high)
  have a_lo: "1 / big \<le> \<bar>a\<bar>" and a_hi: "\<bar>a\<bar> \<le> big"
    using a by (simp_all only: big_def)
  have b0: "0 < b" using b(1) by simp
  have inv: "0 < 1 / big" using big by simp
  have a0: "0 < \<bar>a\<bar>" using a_lo inv by linarith
  have ab: "\<bar>a * b\<bar> = \<bar>a\<bar> * b" using b0 by (simp add: abs_mult)
  have "1 / (128 * big) \<le> 1 / big * (1 / 64)"
    using big by (simp add: field_simps)
  also have "\<dots> \<le> \<bar>a\<bar> * b"
    using a_lo b(1) inv by (intro mult_mono) simp_all
  finally have lo1: "pow2 (- 1022) \<le> \<bar>a * b\<bar>"
    using low unfolding ab by linarith
  have "\<bar>a\<bar> * b \<le> big * 2048"
    using a_hi b(2) b0 big by (intro mult_mono) simp_all
  then have hi1: "\<bar>a * b\<bar> \<le> pow2 1023"
    using high big unfolding ab by linarith
  from rnd_error [OF lo1 hi1] obtain p where
    p: "rnd (a * b) = Fin p" "\<bar>p - a * b\<bar> \<le> \<bar>a * b\<bar> / 2 ^ 53"
    by blast
  define q where "q = p / b"
  have "\<bar>q - a\<bar> = \<bar>p - a * b\<bar> / b"
  proof -
    have "q - a = (p - a * b) / b" using b0 by (simp add: q_def field_simps)
    then show ?thesis using b0 by (simp add: abs_divide)
  qed
  also have "\<dots> \<le> \<bar>a * b\<bar> / 2 ^ 53 / b"
    by (rule divide_right_mono [OF p(2)]) (use b0 in simp)
  also have "\<dots> = \<bar>a\<bar> * eps"
    using b0 unfolding ab eps_def by simp
  finally have qa: "\<bar>q - a\<bar> \<le> \<bar>a\<bar> * eps" .
  have ae: "0 < \<bar>a\<bar> * eps" "\<bar>a\<bar> * eps < \<bar>a\<bar>"
    using a0 eps by simp_all
  have small: "\<bar>a\<bar> * eps \<le> \<bar>a\<bar> / 2"
  proof -
    have "eps \<le> 1 / 2" by (simp add: eps_def)
    then have "\<bar>a\<bar> * eps \<le> \<bar>a\<bar> * (1 / 2)"
      using a0 by (intro mult_left_mono) simp_all
    then show ?thesis by simp
  qed
  have q_lo: "\<bar>a\<bar> / 2 \<le> \<bar>q\<bar>" using qa small by linarith
  have q_hi: "\<bar>q\<bar> \<le> \<bar>a\<bar> + \<bar>a\<bar> * eps" using qa by linarith
  have "1 / (128 * big) \<le> 1 / big / 2"
    using big by (simp add: field_simps)
  also have "\<dots> \<le> \<bar>a\<bar> / 2" using a_lo by simp
  finally have lo2: "pow2 (- 1022) \<le> \<bar>q\<bar>"
    using low q_lo by linarith
  have hi2: "\<bar>q\<bar> \<le> pow2 1023"
    using high q_hi ae(2) a_hi big by linarith
  from rnd_error [OF lo2 hi2] obtain r where
    r: "rnd q = Fin r" "\<bar>r - q\<bar> \<le> \<bar>q\<bar> / 2 ^ 53"
    by blast
  have "\<bar>q\<bar> / 2 ^ 53 = \<bar>q\<bar> * eps" by (simp add: eps_def)
  also have "\<dots> \<le> (\<bar>a\<bar> + \<bar>a\<bar> * eps) * eps"
    using q_hi eps(1) by (intro mult_right_mono) simp_all
  finally have "\<bar>q\<bar> / 2 ^ 53 \<le> (\<bar>a\<bar> + \<bar>a\<bar> * eps) * eps" .
  with r(2) have rq: "\<bar>r - q\<bar> \<le> (\<bar>a\<bar> + \<bar>a\<bar> * eps) * eps" by linarith
  have "\<bar>r - a\<bar> \<le> \<bar>r - q\<bar> + \<bar>q - a\<bar>" by linarith
  also have "\<dots> \<le> (\<bar>a\<bar> + \<bar>a\<bar> * eps) * eps + \<bar>a\<bar> * eps"
    using rq qa by linarith
  also have "\<dots> = (2 * eps + eps * eps) * \<bar>a\<bar>"
    by (simp add: algebra_simps)
  also have "2 * eps + eps * eps = 2 / 2 ^ 53 + 1 / 2 ^ 106"
    by (simp add: eps_def)
  finally have bound: "\<bar>r - a\<bar> \<le> (2 / 2 ^ 53 + 1 / 2 ^ 106) * \<bar>a\<bar>" .
  have "js_div (js_mul (Fin a) (Fin b)) (Fin b) = Fin r"
    using p(1) r(1) b0 by (simp add: q_def)
  with bound show ?thesis by blast
qed

lemma rnd_zero: "rnd 0 = Fin 0"
  by (simp add: rnd_def)

text \<open>
  C8 (as the code has it). For every unit \<open>u\<close> of the nine and every number \<open>x\<close> other
  than \<open>NaN\<close>: \<open>convertLength(x, u, u) == x\<close> exactly when \<open>u\<close> is \<open>m\<close> or \<open>x\<close> is zero
  or an infinity; and when \<open>1e-300 <= |x| <= 1e300\<close> the result is a finite number whose
  distance from \<open>x\<close> is at most \<open>(2^-52 + 2^-106) * |x|\<close>.
\<close>

theorem convertLength_identity_rounded:
  assumes u: "u \<in> set unit_symbols" and x: "is_double x" "x \<noteq> NaN"
  shows "(u = ''m'' \<or> x = Fin 0 \<or> x = PInf \<or> x = NInf \<longrightarrow> js_eq (convertLength x u u) x)
       \<and> (\<forall>a. x = Fin a \<and> 1 / 10 ^ 300 \<le> \<bar>a\<bar> \<and> \<bar>a\<bar> \<le> 10 ^ 300 \<longrightarrow>
            (\<exists>r. convertLength x u u = Fin r
                 \<and> \<bar>r - a\<bar> \<le> (2 / 2 ^ 53 + 1 / 2 ^ 106) * \<bar>a\<bar>))"
proof -
  from lookup_number_factor [OF u] obtain b where
    b: "1 / 64 \<le> b" "b \<le> 2048" "lookup_number EQUIVALENT_METERS u = Fin b"
    by blast
  then have b0: "0 < b" by simp
  have exact: "js_eq (convertLength x u u) x"
    if "u = ''m'' \<or> x = Fin 0 \<or> x = PInf \<or> x = NInf"
  proof (cases x)
    case NaN
    with x show ?thesis by simp
  next
    case NInf
    with b b0 show ?thesis by (simp add: convertLength_def js_eq_def)
  next
    case PInf
    with b b0 show ?thesis by (simp add: convertLength_def js_eq_def)
  next
    case (Fin a)
    from x Fin have r: "rnd a = Fin a" by (simp add: is_double_def)
    from that Fin consider "u = ''m''" | "a = 0" by auto
    then show ?thesis
    proof cases
      case 1
      with r Fin show ?thesis
        by (simp add: convertLength_def js_eq_def lookup_number_values)
    next
      case 2
      with Fin b b0 show ?thesis
        by (simp add: convertLength_def js_eq_def rnd_zero)
    qed
  qed
  have near: "\<exists>r. convertLength x u u = Fin r
                 \<and> \<bar>r - a\<bar> \<le> (2 / 2 ^ 53 + 1 / 2 ^ 106) * \<bar>a\<bar>"
    if "x = Fin a \<and> 1 / 10 ^ 300 \<le> \<bar>a\<bar> \<and> \<bar>a\<bar> \<le> 10 ^ 300" for a
    using convertLength_rounded [OF b(1,2), of a] that b(3)
    by (simp add: convertLength_def)
  from exact near show ?thesis by blast
qed

theorem convertLength_identity_rounded_witness:
  "''ft'' \<in> set unit_symbols \<and> is_double (Fin 7) \<and> Fin 7 \<noteq> NaN
     \<and> (\<exists>r. convertLength (Fin 7) ''ft'' ''ft'' = Fin r
            \<and> \<bar>r - 7\<bar> \<le> (2 / 2 ^ 53 + 1 / 2 ^ 106) * 7)
   \<and> ''m'' \<in> set unit_symbols \<and> js_eq (convertLength (Fin 7) ''m'' ''m'') (Fin 7)"
proof -
  have u: "''ft'' \<in> set unit_symbols" by (simp add: unit_symbols_def)
  have m: "''m'' \<in> set unit_symbols" by (simp add: unit_symbols_def)
  have d: "is_double (Fin 7)" by (simp add: is_double_def rnd_seven)
  have n: "Fin 7 \<noteq> NaN" by simp
  have "(1::rat) / 10 ^ 300 \<le> 1" by (simp add: divide_le_eq_1)
  then have "(1::rat) / 10 ^ 300 \<le> \<bar>7\<bar> \<and> \<bar>7::rat\<bar> \<le> 10 ^ 300" by simp
  with convertLength_identity_rounded [OF u d n]
  have "\<exists>r. convertLength (Fin 7) ''ft'' ''ft'' = Fin r
            \<and> \<bar>r - 7\<bar> \<le> (2 / 2 ^ 53 + 1 / 2 ^ 106) * \<bar>7\<bar>"
    by blast
  moreover have "js_eq (convertLength (Fin 7) ''m'' ''m'') (Fin 7)"
    using convertLength_identity_rounded [OF m d n] by blast
  ultimately show ?thesis using u m d n by simp
qed

section \<open>Properties of the filter predicate\<close>

text \<open>
  The three cases of \<open>inRange\<close> with at least one bound: both bounds are strict, and a
  missing bound (absent or \<open>null\<close>) leaves the other one alone.
\<close>

lemma inRange_both_bounds:
  assumes "default_null mn \<noteq> JNull" and "default_null mx \<noteq> JNull"
  shows "inRange S v mn mx = (less_than S mn v \<and> less_than S v mx)"
  using assms by (auto simp: inRange_def default_null_def Let_def split: if_splits)

lemma inRange_min_absent:
  assumes "default_null mn = JNull" and "default_null mx \<noteq> JNull"
  shows "inRange S v mn mx = less_than S v mx"
  using assms by (auto simp: inRange_def default_null_def Let_def split: if_splits)

lemma inRange_max_absent:
  assumes "default_null mn \<noteq> JNull" and "default_null mx = JNull"
  shows "inRange S v mn mx = less_than S mn v"
  using assms by (auto simp: inRange_def default_null_def Let_def split: if_splits)

text \<open>
  With both bounds missing the second test of \<open>inRange\<close> returns \<open>value < null\<close>, and
  the final \<open>return true\<close> is never reached.
\<close>

lemma inRange_no_bounds:
  assumes "default_null mn = JNull" and "default_null mx = JNull"
  shows "inRange S v mn mx = less_than S v JNull"
  using assms by (simp add: inRange_def Let_def)

text \<open>
  C6. A range clause with neither \<open>min\<close> nor \<open>max\<close> should be vacuously true. On the
  property value 5 the code returns \<open>5 < null\<close>, which is false, from \<open>inRange\<close> and
  from \<open>featureMatch\<close>.
\<close>

theorem inRange_no_bounds_not_vacuous:
  "inRange S (JNum (Fin 5)) JUndefined JUndefined = False
   \<and> featureMatch S \<lparr>geometry = Point (Fin 0, Fin 0), properties = [(''a'', JNum (Fin 5))]\<rparr>
         [(''a'', Range JUndefined JUndefined)] = Inr False"
  by (simp add: inRange_def default_null_def less_than_def featureMatch_def prop_get_def
      js_read_def)

text \<open>
  In the mode Any the loop returns true at the first entry that evaluates true, and false
  when it has seen them all. The entries are all the keys of the filter, \<open>match\<close> included.
\<close>

lemma featureMatch_loop_any:
  assumes "\<forall>(k, d) \<in> set flt. \<exists>v. clause_value S (prop_get (properties f) k) d = Inr v"
  shows "featureMatch_loop S f False flt
           = Inr (\<exists>(k, d) \<in> set flt. clause_value S (prop_get (properties f) k) d = Inr True)"
  using assms
proof (induction flt)
  case Nil
  then show ?case by simp
next
  case (Cons e flt)
  obtain k d where e: "e = (k, d)" by (cases e)
  from Cons.prems e obtain v where v: "clause_value S (prop_get (properties f) k) d = Inr v"
    by auto
  from Cons have ih: "featureMatch_loop S f False flt
      = Inr (\<exists>(k, d) \<in> set flt. clause_value S (prop_get (properties f) k) d = Inr True)"
    by simp
  show ?case
    using v ih e by (cases v) auto
qed

text \<open>
  On a feature whose property \<open>match\<close> is not \<open>'any'\<close> the \<open>match\<close> key evaluates false, and
  the filter matches iff one of its clauses evaluates true.
\<close>

lemma featureMatch_any_clauses:
  assumes any_mode: "map_of flt ''match'' = Some (Shorthand (JStr ''any''))"
    and distinct_keys: "distinct (map fst flt)"
    and no_error: "\<forall>(k, d) \<in> set flt. \<exists>v. clause_value S (prop_get (properties f) k) d = Inr v"
    and not_any: "prop_get (properties f) ''match'' \<noteq> JStr ''any''"
  shows "featureMatch S f flt
           = Inr (\<exists>(k, d) \<in> set (clauses flt).
                    clause_value S (prop_get (properties f) k) d = Inr True)"
proof -
  have m: "d = Shorthand (JStr ''any'')" if "(''match'', d) \<in> set flt" for d
    using that any_mode distinct_keys by simp
  have "(\<exists>(k, d) \<in> set flt. clause_value S (prop_get (properties f) k) d = Inr True)
      = (\<exists>(k, d) \<in> set (clauses flt). clause_value S (prop_get (properties f) k) d = Inr True)"
  proof
    assume "\<exists>(k, d) \<in> set flt. clause_value S (prop_get (properties f) k) d = Inr True"
    then obtain k d where kd: "(k, d) \<in> set flt"
      "clause_value S (prop_get (properties f) k) d = Inr True"
      by auto
    have "k \<noteq> ''match''"
    proof
      assume k: "k = ''match''"
      with kd(1) m have "d = Shorthand (JStr ''any'')" by simp
      with kd(2) k not_any show False by (simp add: strict_equals_def)
    qed
    with kd show "\<exists>(k, d) \<in> set (clauses flt).
        clause_value S (prop_get (properties f) k) d = Inr True"
      by (auto simp: clauses_def)
  next
    assume "\<exists>(k, d) \<in> set (clauses flt).
        clause_value S (prop_get (properties f) k) d = Inr True"
    then show "\<exists>(k, d) \<in> set flt. clause_value S (prop_get (properties f) k) d = Inr True"
      by (auto simp: clauses_def)
  qed
  then show ?thesis
    using any_mode featureMatch_loop_any [OF no_error] by (simp add: featureMatch_def)
qed

text \<open>
  C1. A filter whose only key is \<open>match: 'any'\<close> has mode Any and no clause, and should
  match no feature. The loop evaluates the \<open>match\<close> key as a shorthand equals clause, so the
  filter matches a feature whose property \<open>match\<close> is \<open>'any'\<close>.
\<close>

theorem featureMatch_any_empty_matches:
  "clauses [(''match'', Shorthand (JStr ''any''))] = []
   \<and> featureMatch S
         \<lparr>geometry = Point (Fin 0, Fin 0), properties = [(''match'', JStr ''any'')]\<rparr>
         [(''match'', Shorthand (JStr ''any''))] = Inr True"
  by (simp add: clauses_def featureMatch_def prop_get_def js_read_def strict_equals_def)

section \<open>Properties of the extent\<close>

lemma js_lt_trans: "js_lt a b \<Longrightarrow> js_lt b c \<Longrightarrow> js_lt a c"
  by (cases a; cases b; cases c) auto

lemma js_lt_total: "a \<noteq> NaN \<Longrightarrow> b \<noteq> NaN \<Longrightarrow> js_lt a b \<or> a = b \<or> js_lt b a"
  by (cases a; cases b) auto

lemma js_lt_irrefl: "\<not> js_lt a a"
  by (cases a) auto

lemma js_lt_asym: "js_lt a b \<Longrightarrow> \<not> js_lt b a"
  by (cases a; cases b) auto

lemma not_lt_trans:
  "b \<noteq> NaN \<Longrightarrow> c \<noteq> NaN \<Longrightarrow> \<not> js_lt b a \<Longrightarrow> \<not> js_lt c b \<Longrightarrow> \<not> js_lt c a"
  by (cases a; cases b; cases c) auto

text \<open>The four slots evolve independently.\<close>

lemma fold_update_bounds:
  "fold update_bounds cs (b0, b1, b2, b3) =
     (fold (\<lambda>c b. min_js b (fst c)) cs b0, fold (\<lambda>c b. min_js b (snd c)) cs b1,
      fold (\<lambda>c b. max_js b (fst c)) cs b2, fold (\<lambda>c b. max_js b (snd c)) cs b3)"
  by (induction cs arbitrary: b0 b1 b2 b3) auto

lemma fold_rings: "fold (\<lambda>ring. fold update_bounds ring) rings b = fold update_bounds (concat rings) b"
  by (induction rings arbitrary: b) simp_all

lemma extend_by_geometry_coordinates:
  "extend_by_geometry g b = fold update_bounds (coordinates g) b"
  by (cases g) (simp_all add: fold_rings)

lemma features_extent_visited:
  "fold (\<lambda>feature. extend_by_geometry (geometry feature)) fs b = fold update_bounds (visited fs) b"
  by (induction fs arbitrary: b) (simp_all add: visited_def extend_by_geometry_coordinates)

text \<open>Without \<open>NaN\<close> the fold of \<open>min\<close> leaves a least element, that of \<open>max\<close> a greatest.\<close>

lemma fold_min_least:
  assumes "NaN \<notin> f ` set cs" and "b \<noteq> Some NaN"
  shows "least (fold (\<lambda>c b. min_js b (f c)) cs b) (f ` set cs \<union> set_option b)"
  using assms
proof (induction cs arbitrary: b)
  case Nil
  then show ?case by (cases b) (auto simp: least_def js_lt_irrefl)
next
  case (Cons c cs)
  let ?b' = "min_js b (f c)"
  from Cons.prems have nb: "?b' \<noteq> Some NaN"
    by (cases b) auto
  from Cons.prems have "NaN \<notin> f ` set cs" by auto
  from Cons.IH [OF this nb]
  have ih: "least (fold (\<lambda>c b. min_js b (f c)) cs ?b') (f ` set cs \<union> set_option ?b')" .
  then obtain m where m: "fold (\<lambda>c b. min_js b (f c)) cs ?b' = Some m"
    "m \<in> f ` set cs \<union> set_option ?b'" "\<forall>x \<in> f ` set cs \<union> set_option ?b'. \<not> js_lt x m"
    by (cases "fold (\<lambda>c b. min_js b (f c)) cs ?b'"; cases b) (auto simp: least_def split: if_splits)
  have mN: "m \<noteq> NaN" using m(2) Cons.prems nb
    by (cases b) (auto split: if_splits)
  have in_set: "m \<in> f ` set (c # cs) \<union> set_option b"
    using m(2) by (cases b) (auto split: if_splits)
  have low: "\<not> js_lt x m" if x: "x \<in> f ` set (c # cs) \<union> set_option b" for x
  proof -
    from x consider "x \<in> f ` set cs" | "x = f c" | "b = Some x" by auto
    then show ?thesis
    proof cases
      case 1
      with m(3) show ?thesis by auto
    next
      case 2
      show ?thesis
      proof (cases b)
        case None
        with m(3) 2 show ?thesis by auto
      next
        case (Some b0)
        show ?thesis
        proof (cases "js_lt (f c) b0")
          case True
          with Some m(3) 2 show ?thesis by auto
        next
          case False
          with Some m(3) have "\<not> js_lt b0 m" by auto
          moreover from Some Cons.prems have "b0 \<noteq> NaN" by auto
          ultimately show ?thesis
            using False 2 mN not_lt_trans [of b0 "f c" m] Cons.prems(1)
            by (metis js_lt_trans js_lt_total image_eqI list.set_intros(1))
        qed
      qed
    next
      case 3
      show ?thesis
      proof (cases "js_lt (f c) x")
        case True
        with 3 m(3) have "\<not> js_lt (f c) m" by auto
        with True show ?thesis
          using js_lt_trans js_lt_total mN Cons.prems(1)
          by (metis image_eqI list.set_intros(1))
      next
        case False
        with 3 m(3) show ?thesis by auto
      qed
    qed
  qed
  show ?case
    using m(1) in_set low by (simp add: least_def)
qed

lemma fold_max_greatest:
  assumes "NaN \<notin> f ` set cs" and "b \<noteq> Some NaN"
  shows "greatest (fold (\<lambda>c b. max_js b (f c)) cs b) (f ` set cs \<union> set_option b)"
  using assms
proof (induction cs arbitrary: b)
  case Nil
  then show ?case by (cases b) (auto simp: greatest_def js_lt_irrefl)
next
  case (Cons c cs)
  let ?b' = "max_js b (f c)"
  from Cons.prems have nb: "?b' \<noteq> Some NaN"
    by (cases b) auto
  from Cons.prems have "NaN \<notin> f ` set cs" by auto
  from Cons.IH [OF this nb]
  have ih: "greatest (fold (\<lambda>c b. max_js b (f c)) cs ?b') (f ` set cs \<union> set_option ?b')" .
  then obtain m where m: "fold (\<lambda>c b. max_js b (f c)) cs ?b' = Some m"
    "m \<in> f ` set cs \<union> set_option ?b'" "\<forall>x \<in> f ` set cs \<union> set_option ?b'. \<not> js_lt m x"
    by (cases "fold (\<lambda>c b. max_js b (f c)) cs ?b'"; cases b) (auto simp: greatest_def split: if_splits)
  have mN: "m \<noteq> NaN" using m(2) Cons.prems nb
    by (cases b) (auto split: if_splits)
  have cN: "f c \<noteq> NaN" using Cons.prems(1) by auto
  have in_set: "m \<in> f ` set (c # cs) \<union> set_option b"
    using m(2) by (cases b) (auto split: if_splits)
  have high: "\<not> js_lt m x" if x: "x \<in> f ` set (c # cs) \<union> set_option b" for x
  proof -
    from x consider "x \<in> f ` set cs" | "x = f c" | "b = Some x" by auto
    then show ?thesis
    proof cases
      case 1
      with m(3) show ?thesis by auto
    next
      case 2
      show ?thesis
      proof (cases b)
        case None
        with m(3) 2 show ?thesis by auto
      next
        case (Some b0)
        show ?thesis
        proof (cases "js_lt b0 (f c)")
          case True
          with Some m(3) 2 show ?thesis by auto
        next
          case False
          with Some m(3) have "\<not> js_lt m b0" by auto
          moreover from Some Cons.prems have "b0 \<noteq> NaN" by auto
          ultimately show ?thesis
            using False 2 mN cN by (metis js_lt_trans js_lt_total)
        qed
      qed
    next
      case 3
      show ?thesis
      proof (cases "js_lt x (f c)")
        case True
        with 3 m(3) have "\<not> js_lt m (f c)" by auto
        with True show ?thesis
          using mN cN by (metis js_lt_trans js_lt_total)
      next
        case False
        with 3 m(3) show ?thesis by auto
      qed
    qed
  qed
  show ?case
    using m(1) in_set high by (simp add: greatest_def)
qed

lemma least_unique:
  assumes "least r S" and "least r' S" and "NaN \<notin> S"
  shows "r = r'"
proof (cases r)
  case None
  with assms show ?thesis by (cases r') (auto simp: least_def)
next
  case (Some m)
  with assms(1) have m: "m \<in> S" "\<forall>x\<in>S. \<not> js_lt x m" by (auto simp: least_def)
  with assms(2) obtain m' where m': "r' = Some m'" "m' \<in> S" "\<forall>x\<in>S. \<not> js_lt x m'"
    by (cases r') (auto simp: least_def)
  from m m' assms(3) have "m = m'"
    by (metis js_lt_total)
  with Some m' show ?thesis by simp
qed

lemma greatest_unique:
  assumes "greatest r S" and "greatest r' S" and "NaN \<notin> S"
  shows "r = r'"
proof (cases r)
  case None
  with assms show ?thesis by (cases r') (auto simp: greatest_def)
next
  case (Some m)
  with assms(1) have m: "m \<in> S" "\<forall>x\<in>S. \<not> js_lt m x" by (auto simp: greatest_def)
  with assms(2) obtain m' where m': "r' = Some m'" "m' \<in> S" "\<forall>x\<in>S. \<not> js_lt m' x"
    by (cases r') (auto simp: greatest_def)
  from m m' assms(3) have "m = m'"
    by (metis js_lt_total)
  with Some m' show ?thesis by simp
qed

lemma no_NaN_fst: "no_NaN cs \<Longrightarrow> NaN \<notin> fst ` set cs"
  by (auto simp: no_NaN_def list_all_iff)

lemma no_NaN_snd: "no_NaN cs \<Longrightarrow> NaN \<notin> snd ` set cs"
  by (auto simp: no_NaN_def list_all_iff)

text \<open>The bounds of a list of coordinate pairs depend on its set alone.\<close>

lemma fold_update_bounds_set:
  assumes "no_NaN cs" and "no_NaN cs'" and "set cs = set cs'"
  shows "fold update_bounds cs (None, None, None, None)
           = fold update_bounds cs' (None, None, None, None)"
proof -
  have a: "fold (\<lambda>c b. min_js b (f c)) cs None = fold (\<lambda>c b. min_js b (f c)) cs' None"
    if "NaN \<notin> f ` set cs" for f
  proof -
    from that assms(3) have n': "NaN \<notin> f ` set cs'" by simp
    have "least (fold (\<lambda>c b. min_js b (f c)) cs None) (f ` set cs)"
      using fold_min_least [OF that, of None] by simp
    moreover have "least (fold (\<lambda>c b. min_js b (f c)) cs' None) (f ` set cs)"
      using fold_min_least [OF n', of None] assms(3) by simp
    ultimately show ?thesis using that by (rule least_unique)
  qed
  have b: "fold (\<lambda>c b. max_js b (f c)) cs None = fold (\<lambda>c b. max_js b (f c)) cs' None"
    if "NaN \<notin> f ` set cs" for f
  proof -
    from that assms(3) have n': "NaN \<notin> f ` set cs'" by simp
    have "greatest (fold (\<lambda>c b. max_js b (f c)) cs None) (f ` set cs)"
      using fold_max_greatest [OF that, of None] by simp
    moreover have "greatest (fold (\<lambda>c b. max_js b (f c)) cs' None) (f ` set cs)"
      using fold_max_greatest [OF n', of None] assms(3) by simp
    ultimately show ?thesis using that by (rule greatest_unique)
  qed
  show ?thesis
    unfolding fold_update_bounds
    using a [OF no_NaN_fst [OF assms(1)]] a [OF no_NaN_snd [OF assms(1)]]
      b [OF no_NaN_fst [OF assms(1)]] b [OF no_NaN_snd [OF assms(1)]]
    by simp
qed

lemma visited_permutation: "mset fs = mset fs' \<Longrightarrow> set (visited fs) = set (visited fs')"
proof -
  assume "mset fs = mset fs'"
  then have "set fs = set fs'" by (rule mset_eq_setD)
  then show ?thesis by (simp add: visited_def)
qed

lemma features_extent_set:
  assumes "no_NaN (visited fs)" and "no_NaN (visited fs')"
    and "set (visited fs) = set (visited fs')"
  shows "features_extent fs = features_extent fs'"
  unfolding features_extent_def features_extent_visited
  using assms by (rule fold_update_bounds_set)

text \<open>
  C7 (as the code has it). When no visited coordinate is \<open>NaN\<close>, the extent of a map
  source depends only on the set of the coordinate pairs visited in the features of its
  first layer: two sources whose feature lists are permutations of each other, or visit
  the same set of pairs, have the same extent.
\<close>

theorem getFeaturesExtent_order_independent:
  assumes "layers ms = l # ls" and "features l = Some fs"
    and "layers ms' = l' # ls'" and "features l' = Some fs'"
    and "no_NaN (visited fs)" and "no_NaN (visited fs')"
    and "mset fs = mset fs' \<or> set (visited fs) = set (visited fs')"
  shows "getFeaturesExtent ms = getFeaturesExtent ms'"
proof -
  from assms(7) have "set (visited fs) = set (visited fs')"
    using visited_permutation by blast
  with assms(5,6) have "features_extent fs = features_extent fs'"
    by (rule features_extent_set)
  with assms(1-4) show ?thesis
    by (simp add: getFeaturesExtent_def)
qed

theorem getFeaturesExtent_order_independent_witness:
  "getFeaturesExtent \<lparr>zIndex = 0, layers = [\<lparr>name = ''l'', on = True, features = Some
       [\<lparr>geometry = Point (Fin 1, Fin 2), properties = []\<rparr>,
        \<lparr>geometry = Point (Fin (- 3), Fin 4), properties = []\<rparr>]\<rparr>]\<rparr>
   = getFeaturesExtent \<lparr>zIndex = 0, layers = [\<lparr>name = ''l'', on = True, features = Some
       [\<lparr>geometry = Point (Fin (- 3), Fin 4), properties = []\<rparr>,
        \<lparr>geometry = Point (Fin 1, Fin 2), properties = []\<rparr>]\<rparr>]\<rparr>
   \<and> getFeaturesExtent \<lparr>zIndex = 0, layers = [\<lparr>name = ''l'', on = True, features = Some
       [\<lparr>geometry = Point (Fin 1, Fin 2), properties = []\<rparr>,
        \<lparr>geometry = Point (Fin (- 3), Fin 4), properties = []\<rparr>]\<rparr>]\<rparr>
   = Inr (Some (Fin (- 3)), Some (Fin 2), Some (Fin 1), Some (Fin 4))"
  using getFeaturesExtent_order_independent
    [of "\<lparr>zIndex = 0, layers = [\<lparr>name = ''l'', on = True, features = Some
           [\<lparr>geometry = Point (Fin 1, Fin 2), properties = []\<rparr>,
            \<lparr>geometry = Point (Fin (- 3), Fin 4), properties = []\<rparr>]\<rparr>]\<rparr>"
        "\<lparr>name = ''l'', on = True, features = Some
           [\<lparr>geometry = Point (Fin 1, Fin 2), properties = []\<rparr>,
            \<lparr>geometry = Point (Fin (- 3), Fin 4), properties = []\<rparr>]\<rparr>"
        "[]"
        "[\<lparr>geometry = Point (Fin 1, Fin 2), properties = []\<rparr>,
          \<lparr>geometry = Point (Fin (- 3), Fin 4), properties = []\<rparr>]"
        "\<lparr>zIndex = 0, layers = [\<lparr>name = ''l'', on = True, features = Some
           [\<lparr>geometry = Point (Fin (- 3), Fin 4), properties = []\<rparr>,
            \<lparr>geometry = Point (Fin 1, Fin 2), properties = []\<rparr>]\<rparr>]\<rparr>"
        "\<lparr>name = ''l'', on = True, features = Some
           [\<lparr>geometry = Point (Fin (- 3), Fin 4), properties = []\<rparr>,
            \<lparr>geometry = Point (Fin 1, Fin 2), properties = []\<rparr>]\<rparr>"
        "[]"
        "[\<lparr>geometry = Point (Fin (- 3), Fin 4), properties = []\<rparr>,
          \<lparr>geometry = Point (Fin 1, Fin 2), properties = []\<rparr>]"]
  by (simp add: getFeaturesExtent_def features_extent_def visited_def no_NaN_def)

text \<open>
  With a \<open>NaN\<close> coordinate the order matters: a \<open>NaN\<close> visited first stays in the bounds,
  a \<open>NaN\<close> visited later is dropped.
\<close>

theorem getFeaturesExtent_order_counterexample:
  "mset [\<lparr>geometry = Point (NaN, Fin 0), properties = []\<rparr>,
         \<lparr>geometry = Point (Fin 1, Fin 0), properties = []\<rparr>]
     = mset [\<lparr>geometry = Point (Fin 1, Fin 0), properties = []\<rparr>,
             \<lparr>geometry = Point (NaN, Fin 0), properties = []\<rparr>]
   \<and> getFeaturesExtent \<lparr>zIndex = 0, layers = [\<lparr>name = ''l'', on = True, features = Some
         [\<lparr>geometry = Point (NaN, Fin 0), properties = []\<rparr>,
          \<lparr>geometry = Point (Fin 1, Fin 0), properties = []\<rparr>]\<rparr>]\<rparr>
       = Inr (Some NaN, Some (Fin 0), Some NaN, Some (Fin 0))
   \<and> getFeaturesExtent \<lparr>zIndex = 0, layers = [\<lparr>name = ''l'', on = True, features = Some
         [\<lparr>geometry = Point (Fin 1, Fin 0), properties = []\<rparr>,
          \<lparr>geometry = Point (NaN, Fin 0), properties = []\<rparr>]\<rparr>]\<rparr>
       = Inr (Some (Fin 1), Some (Fin 0), Some (Fin 1), Some (Fin 0))"
  by (simp add: getFeaturesExtent_def features_extent_def add.commute)

section \<open>Properties of the projection registry\<close>

lemma digit_value_digit_char: "d < 10 \<Longrightarrow> digit_value (digit_char d) = d"
proof -
  assume "d < 10"
  then consider "d = 0" | "d = 1" | "d = 2" | "d = 3" | "d = 4" | "d = 5" | "d = 6"
    | "d = 7" | "d = 8" | "d = 9"
    by atomize_elim arith
  then show ?thesis
    by cases (simp_all add: digit_value_def digit_char_def)
qed

lemma string_to_number_snoc:
  "string_to_number (s @ [c]) = string_to_number s * 10 + digit_value c"
  by (simp add: string_to_number_def)

lemma string_to_number_inverse: "string_to_number (number_to_string n) = n"
proof (induction n rule: number_to_string.induct)
  case (1 n)
  show ?case
  proof (cases "n < 10")
    case True
    then show ?thesis
      by (subst number_to_string.simps) (simp add: string_to_number_def digit_value_digit_char)
  next
    case False
    with "1" have ih: "string_to_number (number_to_string (n div 10)) = n div 10" by simp
    have "string_to_number (number_to_string n)
            = string_to_number (number_to_string (n div 10) @ [digit_char (n mod 10)])"
      using False by (subst number_to_string.simps) simp
    also have "\<dots> = n div 10 * 10 + n mod 10"
      by (simp add: string_to_number_snoc ih digit_value_digit_char)
    finally show ?thesis by simp
  qed
qed

lemma number_to_string_inj: "number_to_string a = number_to_string b \<longleftrightarrow> a = b"
  by (metis string_to_number_inverse)

lemma epsg_id_inj: "epsg_id a = epsg_id b \<longleftrightarrow> a = b"
  by (simp add: epsg_id_def number_to_string_inj)

lemma utm_alias_inj:
  "utm_alias a [x] = utm_alias b [y] \<longleftrightarrow> a = b \<and> x = y"
  by (simp add: utm_alias_def number_to_string_inj)

lemma epsg_id_not_alias: "epsg_id a \<noteq> utm_alias b l" "utm_alias b l \<noteq> epsg_id a"
  by (simp_all add: epsg_id_def utm_alias_def)

text \<open>One turn of the outer loop appends the four registrations of its zone.\<close>

lemma defs_get_last: "defs_get (p4 @ [(nm, d)]) nm = d"
  by (cases d) (simp_all add: defs_get_def)

lemma configure_hemisphere_north:
  "configure_hemisphere z ''north'' p4 =
     p4 @ [(epsg_id (32600 + z), Some (utm_proj_string z ''north'')),
           (utm_alias z ''N'', Some (utm_proj_string z ''north''))]"
  by (simp add: configure_hemisphere_def Let_def defs_set_def defs_get_last
      epsg_id_def utm_alias_def utm_proj_string_def)

lemma configure_hemisphere_south:
  "configure_hemisphere z ''south'' p4 =
     p4 @ [(epsg_id (32600 + z + 100), Some (utm_proj_string z ''south'')),
           (utm_alias z ''S'', Some (utm_proj_string z ''south''))]"
  by (simp add: configure_hemisphere_def Let_def defs_set_def defs_get_last
      epsg_id_def utm_alias_def utm_proj_string_def)

lemma configure_zone:
  "configure_hemisphere z ''south'' (configure_hemisphere z ''north'' p4)
     = p4 @ zone_registrations z"
  by (simp add: configure_hemisphere_north configure_hemisphere_south zone_registrations_def)

lemma configure_from_registrations:
  "utm_zone \<le> 61 \<Longrightarrow>
     configure_from utm_zone p4 = p4 @ concat (map zone_registrations [utm_zone..<61])"
proof (induction utm_zone p4 rule: configure_from.induct)
  case (1 utm_zone p4)
  show ?case
  proof (cases "utm_zone \<le> 60")
    case True
    then have "configure_from utm_zone p4
        = configure_from (utm_zone + 1) (p4 @ zone_registrations utm_zone)"
      by (subst configure_from.simps) (simp add: configure_zone)
    also have "\<dots> = (p4 @ zone_registrations utm_zone)
        @ concat (map zone_registrations [utm_zone + 1..<61])"
      using "1.IH" [OF True] True by (simp add: configure_zone)
    also have "\<dots> = p4 @ concat (map zone_registrations [utm_zone..<61])"
      using True by (simp add: upt_conv_Cons)
    finally show ?thesis .
  next
    case False
    with "1.prems" have "utm_zone = 61" by simp
    then show ?thesis
      by (subst configure_from.simps) simp
  qed
qed

lemma length_utm_registrations: "length utm_registrations = 240"
proof -
  have "length (concat (map zone_registrations zs)) = 4 * length zs" for zs
    by (induction zs) (simp_all add: zone_registrations_def)
  then show ?thesis by (simp add: utm_registrations_def)
qed

lemma count_epsg_ids:
  "length (filter (\<lambda>(nm, d). is_epsg_id nm) (concat (map zone_registrations zs)))
     = 2 * length zs"
  by (induction zs)
    (simp_all add: zone_registrations_def is_epsg_id_def epsg_id_def utm_alias_def)

lemma count_utm_aliases:
  "length (filter (\<lambda>(nm, d). is_utm_alias nm) (concat (map zone_registrations zs)))
     = 2 * length zs"
  by (induction zs)
    (simp_all add: zone_registrations_def is_utm_alias_def epsg_id_def utm_alias_def)

lemma names_distinct:
  "\<forall>z\<in>set zs. z \<le> 60 \<Longrightarrow> distinct zs \<Longrightarrow>
     distinct (map fst (concat (map zone_registrations zs)))
     \<and> fst ` set (concat (map zone_registrations zs))
         = (\<Union>z\<in>set zs. {epsg_id (32600 + z), utm_alias z ''N'',
                             epsg_id (32600 + z + 100), utm_alias z ''S''})"
proof (induction zs)
  case Nil
  then show ?case by simp
next
  case (Cons z zs)
  then have ih: "distinct (map fst (concat (map zone_registrations zs)))"
    "fst ` set (concat (map zone_registrations zs))
       = (\<Union>z\<in>set zs. {epsg_id (32600 + z), utm_alias z ''N'',
                           epsg_id (32600 + z + 100), utm_alias z ''S''})"
    by simp_all
  from Cons.prems have z: "z \<le> 60" "z \<notin> set zs" "\<forall>y\<in>set zs. y \<le> 60" by simp_all
  have own: "distinct (map fst (zone_registrations z))"
    by (simp add: zone_registrations_def epsg_id_inj utm_alias_inj epsg_id_not_alias)
  have disj: "fst ` set (zone_registrations z) \<inter> fst ` set (concat (map zone_registrations zs)) = {}"
  proof -
    have "epsg_id (32600 + z) \<noteq> epsg_id (32600 + y + 100)"
         "epsg_id (32600 + z + 100) \<noteq> epsg_id (32600 + y)"
         "epsg_id (32600 + z) \<noteq> epsg_id (32600 + y)"
         "epsg_id (32600 + z + 100) \<noteq> epsg_id (32600 + y + 100)"
         "utm_alias z ''N'' \<noteq> utm_alias y ''N''" "utm_alias z ''N'' \<noteq> utm_alias y ''S''"
         "utm_alias z ''S'' \<noteq> utm_alias y ''N''" "utm_alias z ''S'' \<noteq> utm_alias y ''S''"
      if "y \<in> set zs" for y
      using that z by (auto simp: epsg_id_inj utm_alias_inj)
    then show ?thesis
      unfolding ih(2) by (auto simp: zone_registrations_def epsg_id_not_alias)
  qed
  have "distinct (map fst (concat (map zone_registrations (z # zs))))"
    using own ih(1) disj by simp
  moreover have "fst ` set (concat (map zone_registrations (z # zs)))
      = (\<Union>z\<in>set (z # zs). {epsg_id (32600 + z), utm_alias z ''N'',
                                epsg_id (32600 + z + 100), utm_alias z ''S''})"
    using ih(2) by (simp add: zone_registrations_def image_Un)
  ultimately show ?case by blast
qed

text \<open>
  C5. Run over a registry, \<open>configureProjections\<close> makes exactly the 240 registrations of
  the specification, in zone-major, hemisphere-minor order: for each zone from 1 to 60 the
  id \<open>EPSG:<32600 + zone>\<close> and its alias \<open>UTM<zone>N\<close>, then the id
  \<open>EPSG:<32600 + zone + 100>\<close> and its alias \<open>UTM<zone>S\<close>, each alias with the definition
  of its id. The registered names are 120 EPSG ids and 120 aliases, and no name is
  registered twice.
\<close>

theorem configureProjections_registrations:
  "configureProjections p4 = p4 @ utm_registrations
   \<and> length utm_registrations = 240
   \<and> length (filter (\<lambda>(nm, d). is_epsg_id nm) utm_registrations) = 120
   \<and> length (filter (\<lambda>(nm, d). is_utm_alias nm) utm_registrations) = 120
   \<and> distinct (map fst utm_registrations)"
proof -
  have "configureProjections p4 = p4 @ utm_registrations"
    by (simp add: configureProjections_def utm_registrations_def configure_from_registrations)
  moreover have "length (filter (\<lambda>(nm, d). is_epsg_id nm) utm_registrations) = 120"
    by (simp add: utm_registrations_def count_epsg_ids)
  moreover have "length (filter (\<lambda>(nm, d). is_utm_alias nm) utm_registrations) = 120"
    by (simp add: utm_registrations_def count_utm_aliases)
  moreover have "distinct (map fst utm_registrations)"
    unfolding utm_registrations_def using names_distinct [of "[1..<61]"] by simp
  ultimately show ?thesis
    using length_utm_registrations by simp
qed

theorem configureProjections_registrations_witness:
  "take 4 (configureProjections []) =
     [(''EPSG:32601'', Some ''+proj=utm +zone=1 +north+datum=WGS84 +units=m +no_defs''),
      (''UTM1N'', Some ''+proj=utm +zone=1 +north+datum=WGS84 +units=m +no_defs''),
      (''EPSG:32701'', Some ''+proj=utm +zone=1 +south+datum=WGS84 +units=m +no_defs''),
      (''UTM1S'', Some ''+proj=utm +zone=1 +south+datum=WGS84 +units=m +no_defs'')]
   \<and> length (configureProjections []) = 240"
proof -
  have c: "configureProjections [] = utm_registrations" "length utm_registrations = 240"
    using configureProjections_registrations [of "[]"] by simp_all
  have "[1..<61] = 1 # [Suc 1..<61]"
    by (rule upt_conv_Cons) simp
  then have u: "utm_registrations
      = zone_registrations 1 @ concat (map zone_registrations [Suc 1..<61])"
    by (simp only: utm_registrations_def list.map concat.simps)
  have z: "zone_registrations 1 =
     [(''EPSG:32601'', Some ''+proj=utm +zone=1 +north+datum=WGS84 +units=m +no_defs''),
      (''UTM1N'', Some ''+proj=utm +zone=1 +north+datum=WGS84 +units=m +no_defs''),
      (''EPSG:32701'', Some ''+proj=utm +zone=1 +south+datum=WGS84 +units=m +no_defs''),
      (''UTM1S'', Some ''+proj=utm +zone=1 +south+datum=WGS84 +units=m +no_defs'')]"
    by (simp add: zone_registrations_def epsg_id_def utm_alias_def utm_proj_string_def
        number_to_string.simps digit_char_def)
  have t: "take 4 utm_registrations = zone_registrations 1"
    unfolding u by (simp add: zone_registrations_def)
  show ?thesis
    unfolding c(1) using t c(2) by (simp only: z simp_thms)
qed

section \<open>Properties of the catalog resolver\<close>

lemma js_read_Some: "obj key = Some v \<Longrightarrow> js_read obj key = Own v"
  by (simp add: js_read_def)

lemma js_read_Own: "js_read obj key = Own v \<Longrightarrow> obj key = Some v"
  by (auto simp: js_read_def split: option.splits if_splits)

lemma js_read_Absent: "js_read obj key = Absent \<Longrightarrow> obj key = None"
  by (auto simp: js_read_def split: option.splits if_splits)

lemma sublayer_fold:
  "fold (\<lambda>layer is_on. if name layer = n then (is_on \<and> on layer) else is_on) ls acc
     = (acc \<and> list_all (\<lambda>l. name l = n \<longrightarrow> on l) ls)"
  by (induction ls arbitrary: acc) auto

text \<open>
  The loop of \<open>isLayerOn\<close> when no reference reads an inherited member, and what a
  result \<open>true\<close> says of the references in any case.
\<close>

lemma isLayerOn_loop_all:
  assumes "list_all (\<lambda>s. js_read ms (mapSourceName s) \<noteq> Inherited) srcs"
  shows "isLayerOn_loop ms acc srcs = Inr (acc \<and> list_all (source_ref_on ms) srcs)"
  using assms
proof (induction srcs arbitrary: acc)
  case Nil
  then show ?case by simp
next
  case (Cons s srcs)
  then have rest: "list_all (\<lambda>s. js_read ms (mapSourceName s) \<noteq> Inherited) srcs"
    and s: "js_read ms (mapSourceName s) \<noteq> Inherited"
    by simp_all
  show ?case
  proof (cases "js_read ms (mapSourceName s)")
    case (Own map_source)
    then have "ms (mapSourceName s) = Some map_source" by (rule js_read_Own)
    with Own show ?thesis
      by (simp add: Cons.IH [OF rest] sublayer_fold source_ref_on_def conj_ac)
  next
    case Inherited
    with s show ?thesis by simp
  next
    case Absent
    then have "ms (mapSourceName s) = None" by (rule js_read_Absent)
    with Absent show ?thesis by (simp add: source_ref_on_def)
  qed
qed

lemma isLayerOn_loop_true:
  assumes "isLayerOn_loop ms acc srcs = Inr True"
  shows "list_all (\<lambda>s. \<exists>map_source. ms (mapSourceName s) = Some map_source) srcs"
  using assms
proof (induction srcs arbitrary: acc)
  case Nil
  then show ?case by simp
next
  case (Cons s srcs)
  show ?case
  proof (cases "js_read ms (mapSourceName s)")
    case (Own map_source)
    then have "ms (mapSourceName s) = Some map_source" by (rule js_read_Own)
    moreover from Cons.prems Own have "list_all (\<lambda>s. \<exists>map_source. ms (mapSourceName s) = Some map_source) srcs"
      using Cons.IH by simp
    ultimately show ?thesis by simp
  next
    case Inherited
    with Cons.prems show ?thesis by simp
  next
    case Absent
    with Cons.prems show ?thesis by simp
  qed
qed

lemma isLayerOn_loop_error:
  "isLayerOn_loop ms acc srcs = Inl e \<Longrightarrow> e = TypeError NotIterable"
proof (induction srcs arbitrary: acc)
  case Nil
  then show ?case by simp
next
  case (Cons s srcs)
  then show ?case
    by (cases "js_read ms (mapSourceName s)") auto
qed

lemma isLayerOn_error: "isLayerOn mapSources layer = Inl e \<Longrightarrow> e = TypeError NotIterable"
  by (cases mapSources) (auto simp: isLayerOn_def dest: isLayerOn_loop_error)

lemma isLayerOn_value:
  assumes "no_inherited_source mapSources layer"
  shows "isLayerOn mapSources layer =
     Inr (case mapSources of None \<Rightarrow> False | Some ms \<Rightarrow> list_all (source_ref_on ms) (src layer))"
  using assms
  by (cases mapSources) (simp_all add: isLayerOn_def no_inherited_source_def isLayerOn_loop_all)

text \<open>
  C2 (as the code has it). For every map-sources snapshot and every layer none of whose
  source references reads a member inherited from \<open>Object.prototype\<close>, \<open>isLayerOn\<close>
  returns without error: false when the map sources are absent, and otherwise true iff
  every source reference names a map source that is present and every layer of that
  source with the referenced name is on. A reference to a layer name the source does not
  have does not turn the layer off.
\<close>

theorem isLayerOn_iff:
  assumes "no_inherited_source mapSources layer"
  shows "isLayerOn mapSources layer =
     Inr (case mapSources of None \<Rightarrow> False | Some ms \<Rightarrow> list_all (source_ref_on ms) (src layer))"
  using assms by (rule isLayerOn_value)

theorem isLayerOn_iff_witness:
  "no_inherited_source
     (Some [''A'' \<mapsto> \<lparr>zIndex = 1, layers = [\<lparr>name = ''l1'', on = True, features = None\<rparr>]\<rparr>])
     \<lparr>children = None, src = [\<lparr>mapSourceName = ''A'', layerName = ''l1''\<rparr>]\<rparr>
   \<and> isLayerOn (Some [''A'' \<mapsto> \<lparr>zIndex = 1, layers = [\<lparr>name = ''l1'', on = True, features = None\<rparr>]\<rparr>])
     \<lparr>children = None, src = [\<lparr>mapSourceName = ''A'', layerName = ''l1''\<rparr>]\<rparr> = Inr True
   \<and> no_inherited_source
     (Some [''A'' \<mapsto> \<lparr>zIndex = 1, layers = [\<lparr>name = ''l1'', on = True, features = None\<rparr>]\<rparr>])
     \<lparr>children = None, src = [\<lparr>mapSourceName = ''B'', layerName = ''l1''\<rparr>]\<rparr>
   \<and> isLayerOn (Some [''A'' \<mapsto> \<lparr>zIndex = 1, layers = [\<lparr>name = ''l1'', on = True, features = None\<rparr>]\<rparr>])
     \<lparr>children = None, src = [\<lparr>mapSourceName = ''B'', layerName = ''l1''\<rparr>]\<rparr> = Inr False"
proof -
  let ?ms = "Some [''A'' \<mapsto> \<lparr>zIndex = 1, layers = [\<lparr>name = ''l1'', on = True, features = None\<rparr>]\<rparr>]"
  let ?a = "\<lparr>children = None, src = [\<lparr>mapSourceName = ''A'', layerName = ''l1''\<rparr>]\<rparr>"
  let ?b = "\<lparr>children = None, src = [\<lparr>mapSourceName = ''B'', layerName = ''l1''\<rparr>]\<rparr>"
  have a: "no_inherited_source ?ms ?a"
    by (simp add: no_inherited_source_def js_read_def)
  have b: "no_inherited_source ?ms ?b"
    by (simp add: no_inherited_source_def js_read_def object_prototype_names_def)
  show ?thesis
    using a b isLayerOn_iff [OF a] isLayerOn_iff [OF b]
    by (simp add: source_ref_on_def)
qed

text \<open>
  The map source \<open>A\<close> is present and has no layer \<open>l2\<close>: no referenced layer is on, and
  \<open>isLayerOn\<close> is true. And the map source \<open>constructor\<close> is absent from the snapshot,
  and \<open>isLayerOn\<close> throws.
\<close>

theorem isLayerOn_missing_sublayer_counterexample:
  "isLayerOn (Some [''A'' \<mapsto> \<lparr>zIndex = 1, layers = [\<lparr>name = ''l1'', on = True, features = None\<rparr>]\<rparr>])
     \<lparr>children = None, src = [\<lparr>mapSourceName = ''A'', layerName = ''l2''\<rparr>]\<rparr> = Inr True
   \<and> list_all
        (source_ref_exists_on
           [''A'' \<mapsto> \<lparr>zIndex = 1, layers = [\<lparr>name = ''l1'', on = True, features = None\<rparr>]\<rparr>])
        (src \<lparr>children = None, src = [\<lparr>mapSourceName = ''A'', layerName = ''l2''\<rparr>]\<rparr>) = False
   \<and> (Map.empty :: string \<Rightarrow> map_source option) ''constructor'' = None
   \<and> isLayerOn (Some Map.empty)
     \<lparr>children = None, src = [\<lparr>mapSourceName = ''constructor'', layerName = ''l''\<rparr>]\<rparr>
       = Inl (TypeError NotIterable)"
  by (simp add: isLayerOn_def source_ref_exists_on_def js_read_def object_prototype_names_def)

text \<open>A layer that is on and names a source has a first source that exists.\<close>

lemma isLayerOn_first_source:
  assumes "isLayerOn mapSources layer = Inr True" and "src layer \<noteq> []"
  shows "\<exists>s rest ms map_source. src layer = s # rest \<and> mapSources = Some ms
           \<and> ms (mapSourceName s) = Some map_source
           \<and> getZValue mapSources layer = Inr (Some (zIndex map_source))"
proof -
  from assms(1) obtain ms where ms: "mapSources = Some ms"
    and loop: "isLayerOn_loop ms True (src layer) = Inr True"
    by (cases mapSources) (auto simp: isLayerOn_def)
  from assms(2) obtain s rest where s: "src layer = s # rest"
    by (cases "src layer") auto
  from isLayerOn_loop_true [OF loop] s obtain map_source
    where "ms (mapSourceName s) = Some map_source"
    by auto
  with ms s show ?thesis
    by (simp add: getZValue_def js_read_Some)
qed

lemma getZValue_error:
  "getZValue mapSources layer = Inl e \<Longrightarrow> e = TypeError PropertyOfUndefined"
  by (auto simp: getZValue_def split: list.splits option.splits member.splits)

text \<open>The layers of a catalog, one entry at a time.\<close>

lemma layer_nodes_Nil: "layer_nodes [] = []"
  by (simp add: layer_nodes_def)

lemma layer_nodes_None: "layer_nodes ((key, None) # rest) = layer_nodes rest"
  by (simp add: layer_nodes_def)

lemma layer_nodes_Some:
  "layer_nodes ((key, Some node) # rest)
     = (if children node = None then node # layer_nodes rest else layer_nodes rest)"
  by (simp add: layer_nodes_def)

lemmas layer_nodes_simps = layer_nodes_Nil layer_nodes_None layer_nodes_Some

text \<open>
  The collecting loop never fails in \<open>getZValue\<close> when every layer names a source, and
  returns the layers that are on when, besides, no layer reads an inherited member.
\<close>

lemma collect_layers_no_read_error:
  assumes "layers_have_src catalog"
  shows "collect_layers mapSources catalog acc \<noteq> Inl (TypeError PropertyOfUndefined)"
  using assms
proof (induction catalog arbitrary: acc)
  case Nil
  then show ?case by simp
next
  case (Cons entry catalog)
  obtain key n where entry: "entry = (key, n)" by (cases entry)
  show ?case
  proof (cases n)
    case None
    with entry Cons show ?thesis
      by (simp add: layers_have_src_def layer_nodes_simps)
  next
    case (Some node)
    show ?thesis
    proof (cases "children node = None")
      case False
      then obtain ch where ch: "children node = Some ch" by auto
      with entry Some Cons show ?thesis
        by (simp add: layers_have_src_def layer_nodes_simps)
    next
      case True
      with entry Some Cons.prems have src: "src node \<noteq> []" and rest: "layers_have_src catalog"
        by (simp_all add: layers_have_src_def layer_nodes_simps)
      show ?thesis
      proof (cases "isLayerOn mapSources node")
        case (Inl e)
        then have "e = TypeError NotIterable" by (rule isLayerOn_error)
        with entry Some True Inl show ?thesis by simp
      next
        case (Inr is_on)
        show ?thesis
        proof (cases is_on)
          case False
          with entry Some True Inr Cons.IH [OF rest] show ?thesis by simp
        next
          case on: True
          with Inr have "isLayerOn mapSources node = Inr True" by simp
          from isLayerOn_first_source [OF this src] obtain z
            where "getZValue mapSources node = Inr z"
            by blast
          with entry Some True Inr on Cons.IH [OF rest] show ?thesis by simp
        qed
      qed
    qed
  qed
qed

lemma collect_layers_returns:
  assumes "layers_have_src catalog" and "no_inherited_sources catalog mapSources"
  shows "\<exists>es. collect_layers mapSources catalog acc = Inr (acc @ es)
           \<and> map entry_layer es = on_layers catalog mapSources
           \<and> (\<forall>e\<in>set es. entry_zIndex e \<noteq> None
                  \<and> getZValue mapSources (entry_layer e) = Inr (entry_zIndex e))"
  using assms
proof (induction catalog arbitrary: acc)
  case Nil
  then show ?case by (simp add: on_layers_def layer_nodes_simps)
next
  case (Cons entry catalog)
  obtain key n where entry: "entry = (key, n)" by (cases entry)
  show ?case
  proof (cases n)
    case None
    with entry Cons.prems have "layers_have_src catalog" "no_inherited_sources catalog mapSources"
      by (simp_all add: layers_have_src_def no_inherited_sources_def layer_nodes_simps)
    from Cons.IH [OF this, of acc] entry None show ?thesis
      by (simp add: on_layers_def layer_nodes_simps)
  next
    case (Some node)
    show ?thesis
    proof (cases "children node = None")
      case False
      then obtain ch where ch: "children node = Some ch" by auto
      with entry Some Cons.prems
      have "layers_have_src catalog" "no_inherited_sources catalog mapSources"
        by (simp_all add: layers_have_src_def no_inherited_sources_def layer_nodes_simps)
      from Cons.IH [OF this, of acc] entry Some ch show ?thesis
        by (simp add: on_layers_def layer_nodes_simps)
    next
      case True
      with entry Some Cons.prems have src: "src node \<noteq> []"
        and plain: "no_inherited_source mapSources node"
        and rest: "layers_have_src catalog" "no_inherited_sources catalog mapSources"
        by (simp_all add: layers_have_src_def no_inherited_sources_def layer_nodes_simps)
      from isLayerOn_value [OF plain] obtain is_on where on: "isLayerOn mapSources node = Inr is_on"
        by blast
      show ?thesis
      proof (cases is_on)
        case False
        from Cons.IH [OF rest, of acc] entry Some True on False show ?thesis
          by (simp add: on_layers_def layer_nodes_simps)
      next
        case is_on: True
        with on have "isLayerOn mapSources node = Inr True" by simp
        from isLayerOn_first_source [OF this src] obtain map_source :: map_source where
          z: "getZValue mapSources node = Inr (Some (zIndex map_source))"
          by blast
        let ?e = "\<lparr>entry_zIndex = Some (zIndex map_source), entry_layer = node\<rparr>"
        from Cons.IH [OF rest, of "acc @ [?e]"] obtain es where
          es: "collect_layers mapSources catalog (acc @ [?e]) = Inr ((acc @ [?e]) @ es)"
            "map entry_layer es = on_layers catalog mapSources"
            "\<forall>e\<in>set es. entry_zIndex e \<noteq> None
                \<and> getZValue mapSources (entry_layer e) = Inr (entry_zIndex e)"
          by blast
        have "collect_layers mapSources (entry # catalog) acc = Inr (acc @ (?e # es))"
          using entry Some True on is_on z es(1) by simp
        moreover have "map entry_layer (?e # es) = on_layers (entry # catalog) mapSources"
          using entry Some True on is_on es(2) by (simp add: on_layers_def layer_nodes_simps)
        moreover have "\<forall>e\<in>set (?e # es). entry_zIndex e \<noteq> None
            \<and> getZValue mapSources (entry_layer e) = Inr (entry_zIndex e)"
          using z es(3) by simp
        ultimately show ?thesis by blast
      qed
    qed
  qed
qed

text \<open>The sort keeps the entries and leaves them in descending order of \<open>zIndex\<close>.\<close>

lemma mset_insert_sorted: "mset (insert_sorted c x xs) = add_mset x (mset xs)"
  by (induction xs) simp_all

lemma set_insert_sorted: "set (insert_sorted c x xs) = insert x (set xs)"
  by (induction xs) auto

lemma compare_zIndex_negative:
  "compare_zIndex a b < 0 \<longleftrightarrow> zIndex_greater (entry_zIndex a) (entry_zIndex b)"
  by (simp add: compare_zIndex_def)

lemma descending_Cons:
  "descending (x # xs) \<longleftrightarrow>
     (\<forall>e\<in>set xs. zIndex_at_least (entry_zIndex x) (entry_zIndex e)) \<and> descending xs"
  by (simp add: descending_def)

lemma descending_insert_sorted:
  assumes "entry_zIndex x \<noteq> None" and "\<forall>e\<in>set xs. entry_zIndex e \<noteq> None"
    and "descending xs"
  shows "descending (insert_sorted compare_zIndex x xs)"
  using assms
proof (induction xs)
  case Nil
  then show ?case by (simp add: descending_def)
next
  case (Cons y ys)
  from Cons.prems obtain zx zy where z: "entry_zIndex x = Some zx" "entry_zIndex y = Some zy"
    by auto
  from Cons.prems have tail: "descending ys" "\<forall>e\<in>set ys. entry_zIndex e \<noteq> None"
    and below: "\<forall>e\<in>set ys. zIndex_at_least (entry_zIndex y) (entry_zIndex e)"
    by (simp_all add: descending_Cons)
  show ?case
  proof (cases "zy < zx")
    case True
    have "zIndex_at_least (entry_zIndex x) (entry_zIndex e)" if "e \<in> set (y # ys)" for e
    proof (cases "e = y")
      case True
      with z \<open>zy < zx\<close> show ?thesis by simp
    next
      case False
      with that have e: "e \<in> set ys" by simp
      with tail(2) obtain ze where "entry_zIndex e = Some ze" by auto
      with below e z True show ?thesis by fastforce
    qed
    then have "descending (x # y # ys)"
      using Cons.prems(3) by (simp add: descending_Cons)
    moreover have "insert_sorted compare_zIndex x (y # ys) = x # y # ys"
      using True z by (simp add: compare_zIndex_negative)
    ultimately show ?thesis by simp
  next
    case False
    from Cons.IH [OF Cons.prems(1) tail(2) tail(1)]
    have ih: "descending (insert_sorted compare_zIndex x ys)" .
    have "zIndex_at_least (entry_zIndex y) (entry_zIndex e)"
      if "e \<in> set (insert_sorted compare_zIndex x ys)" for e
    proof -
      from that have "e = x \<or> e \<in> set ys" by (simp add: set_insert_sorted)
      then show ?thesis
      proof
        assume "e = x"
        with z False show ?thesis by simp
      next
        assume "e \<in> set ys"
        with below show ?thesis by simp
      qed
    qed
    then have "descending (y # insert_sorted compare_zIndex x ys)"
      using ih by (simp add: descending_Cons)
    moreover have "insert_sorted compare_zIndex x (y # ys) = y # insert_sorted compare_zIndex x ys"
      using False z by (simp add: compare_zIndex_negative)
    ultimately show ?thesis by simp
  qed
qed

lemma fold_insert_sorted:
  "mset (fold (insert_sorted c) xs acc) = mset xs + mset acc"
  by (induction xs arbitrary: acc) (simp_all add: mset_insert_sorted)

lemma descending_fold_insert_sorted:
  assumes "\<forall>e\<in>set xs. entry_zIndex e \<noteq> None" and "\<forall>e\<in>set acc. entry_zIndex e \<noteq> None"
    and "descending acc"
  shows "descending (fold (insert_sorted compare_zIndex) xs acc)"
  using assms
proof (induction xs arbitrary: acc)
  case Nil
  then show ?case by simp
next
  case (Cons x xs)
  have "descending (insert_sorted compare_zIndex x acc)"
    using Cons.prems by (simp add: descending_insert_sorted)
  moreover have "\<forall>e\<in>set (insert_sorted compare_zIndex x acc). entry_zIndex e \<noteq> None"
    using Cons.prems by (simp add: set_insert_sorted)
  moreover have "\<forall>e\<in>set xs. entry_zIndex e \<noteq> None"
    using Cons.prems by simp
  ultimately show ?case
    using Cons.IH by simp
qed

lemma mset_array_sort: "mset (array_sort c xs) = mset xs"
  by (simp add: array_sort_def fold_insert_sorted)

lemma descending_array_sort:
  assumes "\<forall>e\<in>set xs. entry_zIndex e \<noteq> None"
  shows "descending (array_sort compare_zIndex xs)"
proof -
  have "descending []" by (simp add: descending_def)
  with assms show ?thesis
    unfolding array_sort_def by (simp add: descending_fold_insert_sorted)
qed

text \<open>
  C4 (as the code has it). For every catalog whose layers (nodes without children) each
  name at least one source and read no member inherited from \<open>Object.prototype\<close>, and
  every map-sources snapshot, \<open>getLayersByZOrder\<close> returns exactly the layers for which
  \<open>isLayerOn\<close> is true, each paired with its \<open>getZValue\<close>, an integer, in descending
  order of \<open>zIndex\<close>.
\<close>

theorem getLayersByZOrder_sorted_on_layers:
  assumes "layers_have_src catalog" and "no_inherited_sources catalog mapSources"
  shows "\<exists>es. getLayersByZOrder catalog mapSources = Inr es
           \<and> mset (map entry_layer es) = mset (on_layers catalog mapSources)
           \<and> (\<forall>e\<in>set es. entry_zIndex e \<noteq> None
                  \<and> getZValue mapSources (entry_layer e) = Inr (entry_zIndex e))
           \<and> descending es"
proof -
  from collect_layers_returns [OF assms, of "[]"] obtain acc where
    acc: "collect_layers mapSources catalog [] = Inr acc"
      "map entry_layer acc = on_layers catalog mapSources"
      "\<forall>e\<in>set acc. entry_zIndex e \<noteq> None
          \<and> getZValue mapSources (entry_layer e) = Inr (entry_zIndex e)"
    by auto
  let ?es = "array_sort compare_zIndex acc"
  have m: "mset ?es = mset acc" by (rule mset_array_sort)
  have "getLayersByZOrder catalog mapSources = Inr ?es"
    using acc(1) by (simp add: getLayersByZOrder_def)
  moreover have "mset (map entry_layer ?es) = mset (on_layers catalog mapSources)"
    using m acc(2) by (metis mset_map)
  moreover have "\<forall>e\<in>set ?es. entry_zIndex e \<noteq> None
      \<and> getZValue mapSources (entry_layer e) = Inr (entry_zIndex e)"
    using m acc(3) by (metis set_mset_mset)
  moreover have "descending ?es"
    using acc(3) by (simp add: descending_array_sort)
  ultimately show ?thesis by blast
qed

theorem getLayersByZOrder_sorted_on_layers_witness:
  "layers_have_src
     [(''a'', Some \<lparr>children = None, src = [\<lparr>mapSourceName = ''A'', layerName = ''l''\<rparr>]\<rparr>),
      (''g'', Some \<lparr>children = Some [''a'', ''b''], src = []\<rparr>),
      (''b'', Some \<lparr>children = None, src = [\<lparr>mapSourceName = ''B'', layerName = ''l''\<rparr>]\<rparr>)]
   \<and> no_inherited_sources
     [(''a'', Some \<lparr>children = None, src = [\<lparr>mapSourceName = ''A'', layerName = ''l''\<rparr>]\<rparr>),
      (''g'', Some \<lparr>children = Some [''a'', ''b''], src = []\<rparr>),
      (''b'', Some \<lparr>children = None, src = [\<lparr>mapSourceName = ''B'', layerName = ''l''\<rparr>]\<rparr>)]
     (Some [''A'' \<mapsto> \<lparr>zIndex = 5, layers = [\<lparr>name = ''l'', on = True, features = None\<rparr>]\<rparr>,
            ''B'' \<mapsto> \<lparr>zIndex = 10, layers = [\<lparr>name = ''l'', on = True, features = None\<rparr>]\<rparr>])
   \<and> getLayersByZOrder
     [(''a'', Some \<lparr>children = None, src = [\<lparr>mapSourceName = ''A'', layerName = ''l''\<rparr>]\<rparr>),
      (''g'', Some \<lparr>children = Some [''a'', ''b''], src = []\<rparr>),
      (''b'', Some \<lparr>children = None, src = [\<lparr>mapSourceName = ''B'', layerName = ''l''\<rparr>]\<rparr>)]
     (Some [''A'' \<mapsto> \<lparr>zIndex = 5, layers = [\<lparr>name = ''l'', on = True, features = None\<rparr>]\<rparr>,
            ''B'' \<mapsto> \<lparr>zIndex = 10, layers = [\<lparr>name = ''l'', on = True, features = None\<rparr>]\<rparr>])
   = Inr [\<lparr>entry_zIndex = Some 10, entry_layer =
            \<lparr>children = None, src = [\<lparr>mapSourceName = ''B'', layerName = ''l''\<rparr>]\<rparr>\<rparr>,
          \<lparr>entry_zIndex = Some 5, entry_layer =
            \<lparr>children = None, src = [\<lparr>mapSourceName = ''A'', layerName = ''l''\<rparr>]\<rparr>\<rparr>]"
proof -
  let ?catalog = "[(''a'', Some \<lparr>children = None, src = [\<lparr>mapSourceName = ''A'', layerName = ''l''\<rparr>]\<rparr>),
      (''g'', Some \<lparr>children = Some [''a'', ''b''], src = []\<rparr>),
      (''b'', Some \<lparr>children = None, src = [\<lparr>mapSourceName = ''B'', layerName = ''l''\<rparr>]\<rparr>)]"
  let ?ms = "Some [''A'' \<mapsto> \<lparr>zIndex = 5, layers = [\<lparr>name = ''l'', on = True, features = None\<rparr>]\<rparr>,
            ''B'' \<mapsto> \<lparr>zIndex = 10, layers = [\<lparr>name = ''l'', on = True, features = None\<rparr>]\<rparr>]"
  have a: "layers_have_src ?catalog"
    by (simp add: layers_have_src_def layer_nodes_simps)
  have b: "no_inherited_sources ?catalog ?ms"
    by (simp add: no_inherited_sources_def no_inherited_source_def layer_nodes_simps js_read_def)
  have c: "getLayersByZOrder ?catalog ?ms
     = Inr [\<lparr>entry_zIndex = Some 10, entry_layer =
            \<lparr>children = None, src = [\<lparr>mapSourceName = ''B'', layerName = ''l''\<rparr>]\<rparr>\<rparr>,
          \<lparr>entry_zIndex = Some 5, entry_layer =
            \<lparr>children = None, src = [\<lparr>mapSourceName = ''A'', layerName = ''l''\<rparr>]\<rparr>\<rparr>]"
    using getLayersByZOrder_sorted_on_layers [OF a b]
    by (simp add: getLayersByZOrder_def isLayerOn_def getZValue_def js_read_def
        array_sort_def compare_zIndex_def)
  from a b c show ?thesis by (intro conjI)
qed

text \<open>
  A layer with an empty \<open>src\<close> is on as soon as the map sources are loaded, and
  \<open>getZValue\<close> throws on its \<open>src[0]\<close>. A layer whose source is named \<open>constructor\<close>
  makes \<open>isLayerOn\<close> throw. In both cases \<open>getLayersByZOrder\<close> returns nothing.
\<close>

theorem getLayersByZOrder_empty_src_counterexample:
  "getLayersByZOrder [(''a'', Some \<lparr>children = None, src = []\<rparr>)] (Some Map.empty)
     = Inl (TypeError PropertyOfUndefined)
   \<and> getLayersByZOrder
       [(''a'', Some \<lparr>children = None,
                      src = [\<lparr>mapSourceName = ''constructor'', layerName = ''l''\<rparr>]\<rparr>)]
       (Some Map.empty)
     = Inl (TypeError NotIterable)"
  by (simp add: getLayersByZOrder_def isLayerOn_def getZValue_def js_read_def
      object_prototype_names_def)

lemma layer_nodes_member:
  assumes "node \<in> set (layer_nodes catalog)"
  shows "\<exists>key. (key, Some node) \<in> set catalog \<and> children node = None"
  using assms
  by (induction catalog) (auto simp: layer_nodes_def split: option.splits if_splits)

text \<open>
  C10. For every catalog whose layers each carry a non-empty \<open>src\<close>, and every
  map-sources snapshot, \<open>getLayersByZOrder\<close> never fails in the lookup of \<open>getZValue\<close>
  (the read of a property of \<open>undefined\<close>): for every layer for which \<open>isLayerOn\<close> returned
  true, the map source of the first source reference exists in the snapshot, and
  \<open>getZValue\<close> returns the \<open>zIndex\<close> of that map source.
\<close>

theorem getZValue_guarded_by_isLayerOn:
  assumes "layers_have_src catalog"
  shows "getLayersByZOrder catalog mapSources \<noteq> Inl (TypeError PropertyOfUndefined)
         \<and> (\<forall>node\<in>set (layer_nodes catalog).
               isLayerOn mapSources node = Inr True \<longrightarrow>
               (\<exists>s rest ms map_source. src node = s # rest \<and> mapSources = Some ms
                     \<and> ms (mapSourceName s) = Some map_source
                     \<and> getZValue mapSources node = Inr (Some (zIndex map_source))))"
proof
  have "collect_layers mapSources catalog [] \<noteq> Inl (TypeError PropertyOfUndefined)"
    using assms by (rule collect_layers_no_read_error)
  then show "getLayersByZOrder catalog mapSources \<noteq> Inl (TypeError PropertyOfUndefined)"
    by (auto simp: getLayersByZOrder_def split: sum.splits)
next
  show "\<forall>node\<in>set (layer_nodes catalog).
          isLayerOn mapSources node = Inr True \<longrightarrow>
          (\<exists>s rest ms map_source. src node = s # rest \<and> mapSources = Some ms
                \<and> ms (mapSourceName s) = Some map_source
                \<and> getZValue mapSources node = Inr (Some (zIndex map_source)))"
  proof (intro ballI impI)
    fix node
    assume node: "node \<in> set (layer_nodes catalog)"
      and on: "isLayerOn mapSources node = Inr True"
    from assms node have "src node \<noteq> []"
      by (simp add: layers_have_src_def list_all_iff)
    with on show "\<exists>s rest ms map_source. src node = s # rest \<and> mapSources = Some ms
                \<and> ms (mapSourceName s) = Some map_source
                \<and> getZValue mapSources node = Inr (Some (zIndex map_source))"
      by (rule isLayerOn_first_source)
  qed
qed

theorem getZValue_guarded_by_isLayerOn_witness:
  "layers_have_src
     [(''a'', Some \<lparr>children = None, src = [\<lparr>mapSourceName = ''A'', layerName = ''l''\<rparr>]\<rparr>),
      (''b'', Some \<lparr>children = None, src = [\<lparr>mapSourceName = ''B'', layerName = ''l''\<rparr>]\<rparr>)]
   \<and> layer_nodes
     [(''a'', Some \<lparr>children = None, src = [\<lparr>mapSourceName = ''A'', layerName = ''l''\<rparr>]\<rparr>),
      (''b'', Some \<lparr>children = None, src = [\<lparr>mapSourceName = ''B'', layerName = ''l''\<rparr>]\<rparr>)]
     = [\<lparr>children = None, src = [\<lparr>mapSourceName = ''A'', layerName = ''l''\<rparr>]\<rparr>,
        \<lparr>children = None, src = [\<lparr>mapSourceName = ''B'', layerName = ''l''\<rparr>]\<rparr>]
   \<and> isLayerOn
     (Some [''A'' \<mapsto> \<lparr>zIndex = 5, layers = [\<lparr>name = ''l'', on = True, features = None\<rparr>]\<rparr>])
     \<lparr>children = None, src = [\<lparr>mapSourceName = ''A'', layerName = ''l''\<rparr>]\<rparr> = Inr True
   \<and> getZValue
     (Some [''A'' \<mapsto> \<lparr>zIndex = 5, layers = [\<lparr>name = ''l'', on = True, features = None\<rparr>]\<rparr>])
     \<lparr>children = None, src = [\<lparr>mapSourceName = ''A'', layerName = ''l''\<rparr>]\<rparr> = Inr (Some 5)
   \<and> getLayersByZOrder
     [(''a'', Some \<lparr>children = None, src = [\<lparr>mapSourceName = ''A'', layerName = ''l''\<rparr>]\<rparr>),
      (''b'', Some \<lparr>children = None, src = [\<lparr>mapSourceName = ''B'', layerName = ''l''\<rparr>]\<rparr>)]
     (Some [''A'' \<mapsto> \<lparr>zIndex = 5, layers = [\<lparr>name = ''l'', on = True, features = None\<rparr>]\<rparr>])
     = Inr [\<lparr>entry_zIndex = Some 5, entry_layer =
              \<lparr>children = None, src = [\<lparr>mapSourceName = ''A'', layerName = ''l''\<rparr>]\<rparr>\<rparr>]"
proof -
  let ?catalog = "[(''a'', Some \<lparr>children = None, src = [\<lparr>mapSourceName = ''A'', layerName = ''l''\<rparr>]\<rparr>),
      (''b'', Some \<lparr>children = None, src = [\<lparr>mapSourceName = ''B'', layerName = ''l''\<rparr>]\<rparr>)]"
  have a: "layers_have_src ?catalog"
    by (simp add: layers_have_src_def layer_nodes_simps)
  show ?thesis
    using a getZValue_guarded_by_isLayerOn
      [OF a, of "Some [''A'' \<mapsto> \<lparr>zIndex = 5,
                        layers = [\<lparr>name = ''l'', on = True, features = None\<rparr>]\<rparr>]"]
    by (simp add: layer_nodes_simps getLayersByZOrder_def isLayerOn_def getZValue_def
        js_read_def object_prototype_names_def array_sort_def compare_zIndex_def)
qed

end
